(* ===== verification/Prelude.thy ===== *)
theory Prelude
  imports Main
begin

text \<open>
  Shared vocabulary of the development. Go code that may panic is modelled as a function
  into a sum type: \<open>Inl\<close> carries the panic, \<open>Inr\<close> the normal result. A Go statement
  sequence in which any step may panic is a chain of \<open>sum_bind\<close>: the first panic is
  the result, as an unrecovered panic unwinds the rest of the function. The theory also
  holds the generic lemmas on sums and maps the component theories share, and
  the named collections their proofs use.
\<close>

named_theorems go_simps \<open>evaluation rules of the Go runtime model\<close>
named_theorems registry_simps \<open>evaluation rules of the registry operations\<close>

type_synonym key = string

definition sum_bind :: "'e + 'a \<Rightarrow> ('a \<Rightarrow> 'e + 'b) \<Rightarrow> 'e + 'b" where
  "sum_bind m f = (case m of Inl e \<Rightarrow> Inl e | Inr x \<Rightarrow> f x)"

lemma sum_bind_Inl [simp]: "sum_bind (Inl e) f = Inl e"
  by (simp add: sum_bind_def)

lemma sum_bind_Inr [simp]: "sum_bind (Inr x) f = f x"
  by (simp add: sum_bind_def)

lemma sum_bind_eq_Inr:
  "sum_bind m f = Inr y \<longleftrightarrow> (\<exists>x. m = Inr x \<and> f x = Inr y)"
  by (cases m) simp_all

lemma sum_bind_eq_Inl:
  "sum_bind m f = Inl e \<longleftrightarrow> m = Inl e \<or> (\<exists>x. m = Inr x \<and> f x = Inl e)"
  by (cases m) simp_all

text \<open>
  \<open>is_ok r\<close>: the Go call returned without panicking.
\<close>

definition is_ok :: "'e + 'a \<Rightarrow> bool" where
  "is_ok r \<longleftrightarrow> (\<exists>x. r = Inr x)"

lemma is_ok_simps [simp]: "is_ok (Inr x)" "\<not> is_ok (Inl e)"
  by (simp_all add: is_ok_def)

lemma is_ok_sum_bind [simp]: "is_ok (sum_bind m f) \<longleftrightarrow> (\<exists>x. m = Inr x \<and> is_ok (f x))"
  by (cases m) (simp_all add: is_ok_def)

text \<open>
  A Go map value may be the nil map, which reads as empty and panics on assignment:
  \<open>None\<close> is the nil map, \<open>Some m\<close> an allocated one.
\<close>

type_synonym ('k, 'v) gomap = "('k \<rightharpoonup> 'v) option"

definition map_get :: "('k, 'v) gomap \<Rightarrow> 'k \<Rightarrow> 'v option" where
  "map_get gm k = (case gm of None \<Rightarrow> None | Some m \<Rightarrow> m k)"

lemma map_get_simps [simp]:
  "map_get None = Map.empty"
  "map_get (Some m) = m"
  by (simp_all add: map_get_def fun_eq_iff)

end
