(* ===== verification/GoTypes.thy ===== *)
theory GoTypes
  imports Prelude
begin

text \<open>
  The part of the Go language and runtime that \<open>src/Registry.go\<close> relies on. The package
  handles values only through a type parameter \<open>T\<close>. The program needs four things:
  \<^item> the zero value of \<open>T\<close> (\<open>var t T\<close> in \<open>Hydrate\<close>);
  \<^item> the conversion of a \<open>T\<close> to \<open>any\<close> (the factory closure returns \<open>Hydrate[T]()\<close>
    as \<open>any\<close>, and \<open>reflect.TypeOf\<close> takes its argument as \<open>any\<close>);
  \<^item> \<open>fmt.Sprintf("%v", reflect.TypeOf(t))\<close>, the runtime name of a type (\<open>DerivedTypeKey\<close>);
  \<^item> the type assertion \<open>x.(T)\<close> (\<open>ResolveFromWithKey\<close>).
  A type is a runtime type descriptor. A named type carries its import path, its package
  name and its type name, as the runtime's descriptor does. It also carries what the program
  observes of its declaration: whether it is an interface, and its methods. Values are
  zero values. The package creates no other values: every value it makes comes from
  \<open>Hydrate\<close>. An interface value is nil or a pair of a dynamic type and a value.
\<close>

subsection \<open>Types\<close>

text \<open>A method as reflect prints it: its name and its signature after the name.\<close>

type_synonym method_sig = "string \<times> string"

datatype tkind =
    NamedInterface "method_sig list"
  | NamedConcrete "(method_sig \<times> bool) list" \<comment> \<open>declared methods; \<open>True\<close>: pointer receiver\<close>

text \<open>The direction of a channel type, as \<open>reflect.ChanDir\<close> names them.\<close>

datatype chan_dir = BothDir | SendDir | RecvDir

datatype gotype =
    Basic string                        \<comment> \<open>predeclared: \<open>bool\<close>, \<open>int\<close>, \<open>string\<close>, \<dots>\<close>
  | Named string string string tkind    \<comment> \<open>import path, package name, type name\<close>
  | Pointer gotype
  | Slice gotype
  | Array nat gotype
  | Map gotype gotype
  | Struct "(string \<times> gotype) list"
  | Interface "method_sig list"         \<comment> \<open>an interface literal; \<open>any\<close> is \<open>Interface []\<close>\<close>
  | Chan chan_dir gotype
  | Func "gotype list" "gotype list" bool  \<comment> \<open>parameters, results, variadic\<close>

fun is_interface :: "gotype \<Rightarrow> bool" where
  "is_interface (Interface ms) = True"
| "is_interface (Named path pkg n (NamedInterface ms)) = True"
| "is_interface t = False"

fun iface_methods :: "gotype \<Rightarrow> method_sig list" where
  "iface_methods (Interface ms) = ms"
| "iface_methods (Named path pkg n (NamedInterface ms)) = ms"
| "iface_methods t = []"

text \<open>
  The method set of a dynamic type: a named type has the methods declared with a value
  receiver, a pointer to it has all its declared methods. Promotion through embedded
  fields is not modelled.
\<close>

fun method_list :: "gotype \<Rightarrow> method_sig list" where
  "method_list (Named path pkg n (NamedConcrete ms)) = map fst (filter (\<lambda>m. \<not> snd m) ms)"
| "method_list (Pointer (Named path pkg n (NamedConcrete ms))) = map fst ms"
| "method_list t = []"

definition implements :: "gotype \<Rightarrow> gotype \<Rightarrow> bool" where
  "implements d i \<longleftrightarrow> list_all (\<lambda>m. m \<in> set (method_list d)) (iface_methods i)"

subsection \<open>The runtime name of a type: \<open>reflect.Type.String\<close>\<close>

definition digit_char :: "nat \<Rightarrow> char" where
  "digit_char d = char_of (48 + d)"

fun nat_digits :: "nat \<Rightarrow> string" where
  "nat_digits n = (if n < 10 then [digit_char n] else nat_digits (n div 10) @ [digit_char (n mod 10)])"

declare nat_digits.simps [simp del]

fun join :: "string \<Rightarrow> string list \<Rightarrow> string" where
  "join sep [] = []"
| "join sep [s] = s"
| "join sep (s # ss) = s @ sep @ join sep ss"

text \<open>
  A named type prints as \<open>pkg.Name\<close> with the package's name, not its import path;
  a predeclared named type (\<open>error\<close>) has no package and prints as its name. A channel
  prints its direction (\<open>chan\<close>, \<open>chan<-\<close>, \<open><-chan\<close>); a bidirectional channel of
  receive-only channels parenthesises its element, \<open>chan (<-chan int)\<close>, since
  \<open>chan <-chan int\<close> would read as \<open>chan<- chan int\<close>. A function prints its parameters
  and results; the last parameter of a variadic function has the slice type \<open>[]E\<close> and
  prints as \<open>...E\<close>; one result prints bare, several in parentheses.
\<close>

definition results_string :: "string list \<Rightarrow> string" where
  "results_string rs = (case rs of [] \<Rightarrow> [] | [r] \<Rightarrow> '' '' @ r | _ \<Rightarrow> '' ('' @ join '', '' rs @ '')'')"

definition params_string :: "string list \<Rightarrow> bool \<Rightarrow> string" where
  "params_string ps v =
     join '', '' (if v \<and> ps \<noteq> [] then butlast ps @ [''...'' @ drop 2 (last ps)] else ps)"

fun type_string :: "gotype \<Rightarrow> string" where
  "type_string (Basic n) = n"
| "type_string (Named path pkg n k) = (if pkg = [] then n else pkg @ ''.'' @ n)"
| "type_string (Pointer t) = ''*'' @ type_string t"
| "type_string (Slice t) = ''[]'' @ type_string t"
| "type_string (Array n t) = ''['' @ nat_digits n @ '']'' @ type_string t"
| "type_string (Map k v) = ''map['' @ type_string k @ '']'' @ type_string v"
| "type_string (Struct fs) =
     (if fs = [] then ''struct {}''
      else ''struct { '' @ join ''; '' (map (\<lambda>(f, t). f @ '' '' @ type_string t) fs) @ '' }'')"
| "type_string (Interface ms) =
     (if ms = [] then ''interface {}''
      else ''interface { '' @ join ''; '' (map (\<lambda>(m, s). m @ s) ms) @ '' }'')"
| "type_string (Chan d t) =
     (case d of
        SendDir \<Rightarrow> ''chan<- '' @ type_string t
      | RecvDir \<Rightarrow> ''<-chan '' @ type_string t
      | BothDir \<Rightarrow>
          (case t of
             Chan RecvDir u \<Rightarrow> ''chan ('' @ type_string t @ '')''
           | _ \<Rightarrow> ''chan '' @ type_string t))"
| "type_string (Func ins outs v) =
     ''func('' @ params_string (map type_string ins) v @ '')'' @ results_string (map type_string outs)"

subsection \<open>Values, \<open>any\<close>, \<open>reflect.TypeOf\<close> and \<open>fmt\<close>\<close>

datatype goval =
    Zero gotype                           \<comment> \<open>the zero value of a non-interface type\<close>
  | Iface "(gotype \<times> goval) option"     \<comment> \<open>an interface value: nil, or dynamic type and value\<close>

type_synonym anyval = "(gotype \<times> goval) option"

text \<open>\<open>var t T\<close>: the zero value; for an interface type it is the nil interface.\<close>

definition zero_value :: "gotype \<Rightarrow> goval" where
  "zero_value t = (if is_interface t then Iface None else Zero t)"

fun iface_payload :: "goval \<Rightarrow> anyval" where
  "iface_payload (Iface x) = x"
| "iface_payload (Zero t) = None"

text \<open>
  Converting a value of static type \<open>T\<close> to \<open>any\<close>: a non-interface value is boxed with
  its type; an interface value passes its dynamic pair on, so a nil interface of any
  interface type becomes the nil \<open>any\<close>.
\<close>

definition to_any :: "gotype \<Rightarrow> goval \<Rightarrow> anyval" where
  "to_any t v = (if is_interface t then iface_payload v else Some (t, v))"

text \<open>\<open>reflect.TypeOf\<close> returns the nil \<open>Type\<close> for the nil interface.\<close>

definition reflect_TypeOf :: "anyval \<Rightarrow> gotype option" where
  "reflect_TypeOf x = map_option fst x"

text \<open>\<open>fmt.Sprintf("%v", ty)\<close> for a \<open>reflect.Type\<close>: \<open><nil>\<close> for nil, else its \<open>String()\<close>.\<close>

definition sprintf_v :: "gotype option \<Rightarrow> string" where
  "sprintf_v ty = (case ty of None \<Rightarrow> ''<nil>'' | Some t \<Rightarrow> type_string t)"

subsection \<open>Panics and the type assertion\<close>

datatype goerror =
    NilPointerDereference
  | AssignmentToEntryInNilMap
  | TypeAssertionError "gotype option" gotype  \<comment> \<open>dynamic type (None: nil), asserted type\<close>

text \<open>
  \<open>x.(T)\<close> on an \<open>any\<close>: to a non-interface \<open>T\<close> it succeeds when the dynamic type is
  \<open>T\<close>; to an interface \<open>T\<close> when the dynamic type implements it. It panics on nil.
\<close>

fun type_assert :: "anyval \<Rightarrow> gotype \<Rightarrow> goerror + goval" where
  "type_assert None t = Inl (TypeAssertionError None t)"
| "type_assert (Some (d, v)) t =
     (if is_interface t then
        (if implements d t then Inr (Iface (Some (d, v))) else Inl (TypeAssertionError (Some d) t))
      else if d = t then Inr v else Inl (TypeAssertionError (Some d) t))"

subsection \<open>Well-typed values\<close>

fun has_type :: "goval \<Rightarrow> gotype \<Rightarrow> bool" where
  "has_type (Zero d) t \<longleftrightarrow> d = t \<and> \<not> is_interface t"
| "has_type (Iface None) t \<longleftrightarrow> is_interface t"
| "has_type (Iface (Some (d, v))) t \<longleftrightarrow>
     is_interface t \<and> \<not> is_interface d \<and> implements d t \<and> has_type v d"

text \<open>An \<open>any\<close> is well formed when its dynamic value has its dynamic, non-interface, type.\<close>

fun any_ok :: "anyval \<Rightarrow> bool" where
  "any_ok None = True"
| "any_ok (Some (d, v)) \<longleftrightarrow> \<not> is_interface d \<and> has_type v d"

subsection \<open>Well-formed type descriptors\<close>

text \<open>
  The names a Go program can declare: identifiers are letters, digits and \<open>_\<close>, where a
  byte of a multi-byte UTF-8 letter counts as a letter; predeclared types have fixed names
  (\<open>byte\<close> and \<open>rune\<close> are aliases of \<open>uint8\<close> and \<open>int32\<close>).
\<close>

definition ident_char :: "char \<Rightarrow> bool" where
  "ident_char c \<longleftrightarrow> (let n = of_char c :: nat in
     (65 \<le> n \<and> n \<le> 90) \<or> (97 \<le> n \<and> n \<le> 122) \<or> (48 \<le> n \<and> n \<le> 57) \<or> n = 95 \<or> 128 \<le> n)"

definition go_ident :: "string \<Rightarrow> bool" where
  "go_ident s \<longleftrightarrow> s \<noteq> [] \<and> list_all ident_char s"

definition predeclared :: "string list" where
  "predeclared = [''bool'', ''string'', ''int'', ''int8'', ''int16'', ''int32'', ''int64'',
     ''uint'', ''uint8'', ''uint16'', ''uint32'', ''uint64'', ''uintptr'',
     ''float32'', ''float64'', ''complex64'', ''complex128'', ''unsafe.Pointer'']"

definition wf_method :: "method_sig \<Rightarrow> bool" where
  "wf_method m \<longleftrightarrow> go_ident (fst m)"

fun is_slice :: "gotype \<Rightarrow> bool" where
  "is_slice (Slice t) = True"
| "is_slice t = False"

fun wf_kind :: "tkind \<Rightarrow> bool" where
  "wf_kind (NamedInterface ms) \<longleftrightarrow> list_all wf_method ms"
| "wf_kind (NamedConcrete ms) \<longleftrightarrow> list_all (\<lambda>m. wf_method (fst m)) ms"

fun wf_type :: "gotype \<Rightarrow> bool" where
  "wf_type (Basic n) \<longleftrightarrow> n \<in> set predeclared"
| "wf_type (Named path pkg n k) \<longleftrightarrow> go_ident n \<and> (pkg = [] \<or> go_ident pkg) \<and> wf_kind k"
| "wf_type (Pointer t) \<longleftrightarrow> wf_type t"
| "wf_type (Slice t) \<longleftrightarrow> wf_type t"
| "wf_type (Array n t) \<longleftrightarrow> wf_type t"
| "wf_type (Map k v) \<longleftrightarrow> wf_type k \<and> wf_type v"
| "wf_type (Struct fs) \<longleftrightarrow> list_all (\<lambda>(f, t). go_ident f \<and> wf_type t) fs"
| "wf_type (Interface ms) \<longleftrightarrow> list_all wf_method ms"
| "wf_type (Chan d t) \<longleftrightarrow> wf_type t"
| "wf_type (Func ins outs v) \<longleftrightarrow>
     list_all wf_type ins \<and> list_all wf_type outs \<and> (v \<longrightarrow> ins \<noteq> [] \<and> is_slice (last ins))"

subsection \<open>Zero values, conversion to \<open>any\<close>, assertion\<close>

lemma zero_value_has_type [go_simps]: "has_type (zero_value t) t"
  by (simp add: zero_value_def)

lemma to_any_zero_value [go_simps]:
  "to_any t (zero_value t) = (if is_interface t then None else Some (t, Zero t))"
  by (simp add: to_any_def zero_value_def)

lemma reflect_TypeOf_zero [go_simps]:
  "reflect_TypeOf (to_any t (zero_value t)) = (if is_interface t then None else Some t)"
  by (simp add: reflect_TypeOf_def to_any_zero_value)

lemma to_any_ok: "has_type v t \<Longrightarrow> any_ok (to_any t v)"
  by (induction v t rule: has_type.induct) (auto simp: to_any_def)

text \<open>What the assertion returns has the asserted type.\<close>

lemma type_assert_sound: "any_ok x \<Longrightarrow> type_assert x t = Inr v \<Longrightarrow> has_type v t"
  by (cases "(x, t)" rule: type_assert.cases) (auto split: if_splits)

text \<open>Asserting a boxed non-interface value back to its own type gives the value back.\<close>

lemma type_assert_to_any_concrete [go_simps]:
  "\<not> is_interface t \<Longrightarrow> type_assert (to_any t v) t = Inr v"
  by (simp add: to_any_def)

text \<open>
  The nil interface asserts to no type: the zero value of an interface type, once an
  \<open>any\<close>, can never be asserted back.
\<close>

lemma type_assert_zero_interface [go_simps]:
  "is_interface t \<Longrightarrow> type_assert (to_any t (zero_value t)) u = Inl (TypeAssertionError None u)"
  by (simp add: to_any_zero_value)

lemma type_assert_Inr_iff:
  "type_assert x t = Inr v \<longleftrightarrow>
     (\<exists>d w. x = Some (d, w) \<and>
        (if is_interface t then implements d t \<and> v = Iface (Some (d, w)) else d = t \<and> v = w))"
  by (cases "(x, t)" rule: type_assert.cases) (auto split: if_splits)

subsection \<open>Type names never read \<open><nil>\<close>\<close>

text \<open>
  Only a receive-only channel type has a name that starts with \<open><\<close>, and it starts
  with \<open><-\<close>. So no well-formed type prints as \<open><nil>\<close>, the name \<open>fmt\<close> gives the nil
  type.
\<close>

lemma ident_char_not_lt: "ident_char c \<Longrightarrow> c \<noteq> CHR ''<''"
  by (auto simp: ident_char_def)

lemma go_ident_prefix: "go_ident s \<Longrightarrow> take 2 (s @ r) \<noteq> ''<n''"
  by (cases s) (auto simp: go_ident_def dest: ident_char_not_lt)

lemma type_string_prefix:
  assumes "wf_type t"
  shows "take 2 (type_string t) \<noteq> ''<n''"
proof (cases t)
  case (Basic n)
  then show ?thesis using assms by (auto simp: predeclared_def)
next
  case (Named path pkg n k)
  with assms show ?thesis
    by (auto simp: go_ident_prefix [where r = "''.'' @ n", simplified]
             dest: go_ident_prefix [where r = "[]"])
next
  case (Chan d u)
  then show ?thesis by (cases d; cases u) (auto split: chan_dir.splits)
qed simp_all

lemma type_string_not_nil: "wf_type t \<Longrightarrow> type_string t \<noteq> ''<nil>''"
  using type_string_prefix by fastforce

end
