(* ===== verification/Registry.thy ===== *)
theory Registry
  imports GoTypes
begin

text \<open>
  The package \<open>hydration\<close> of \<open>src/Registry.go\<close>. A \<open>Registry\<close> holds a Go map from a
  type key to a factory. The program reaches registries through \<open>*Registry\<close> pointers,
  and the package-level variable \<open>DefaultRegistry\<close> is one of them. So the state is a
  heap of registries with an allocation counter, plus the value of that variable.
  Each function of the package is one definition here, in the order of the file. Its
  type parameter \<open>T\<close> is an explicit argument. A function that may panic returns
  \<open>goerror + _\<close>. A function that writes a registry returns the new state.
\<close>

subsection \<open>State\<close>

text \<open>
  The only factory the package builds is the closure \<open>func() any { return Hydrate[T]() }\<close>
  of \<open>RegisterIntoWithKey\<close>. Its behaviour is fixed by the captured \<open>T\<close>.
\<close>

datatype factory = Hydrator gotype

record Registry =
  typeMapping :: "(key, factory) gomap"

text \<open>\<open>Registry{}\<close>: the zero value of the struct, whose map is nil.\<close>

definition zero_Registry :: Registry where
  "zero_Registry = \<lparr>typeMapping = None\<rparr>"

datatype ptr = Nil | Addr nat

record world =
  heap :: "nat \<Rightarrow> Registry"
  next_addr :: nat
  DefaultRegistry :: ptr

definition empty_world :: world where
  "empty_world = \<lparr>heap = (\<lambda>_. zero_Registry), next_addr = 0, DefaultRegistry = Nil\<rparr>"

text \<open>\<open>NewRegistry\<close> allocates a registry with an empty, non-nil map.\<close>

definition NewRegistry :: "world \<Rightarrow> ptr \<times> world" where
  "NewRegistry w =
     (Addr (next_addr w),
      w\<lparr>heap := (heap w)(next_addr w := \<lparr>typeMapping = Some Map.empty\<rparr>),
        next_addr := Suc (next_addr w)\<rparr>)"

text \<open>Package initialisation: \<open>var DefaultRegistry = NewRegistry()\<close>.\<close>

definition init_world :: world where
  "init_world = (let (p, w) = NewRegistry empty_world in w\<lparr>DefaultRegistry := p\<rparr>)"

definition deref :: "world \<Rightarrow> ptr \<Rightarrow> goerror + Registry" where
  "deref w p = (case p of Nil \<Rightarrow> Inl NilPointerDereference | Addr a \<Rightarrow> Inr (heap w a))"

subsection \<open>Key derivation and hydration\<close>

definition Hydrate :: "gotype \<Rightarrow> goval" where
  "Hydrate t = zero_value t"

definition DerivedTypeKey :: "gotype \<Rightarrow> key" where
  "DerivedTypeKey t = sprintf_v (reflect_TypeOf (to_any t (Hydrate t)))"

definition call_factory :: "factory \<Rightarrow> anyval" where
  "call_factory f = (case f of Hydrator t \<Rightarrow> to_any t (Hydrate t))"

subsection \<open>Registration\<close>

text \<open>
  \<open>registry.typeMapping[typeKey] = \<dots>\<close> dereferences the pointer (a nil pointer panics)
  and assigns into the map (a nil map panics).
\<close>

definition RegisterIntoWithKey :: "gotype \<Rightarrow> ptr \<Rightarrow> key \<Rightarrow> world \<Rightarrow> goerror + world" where
  "RegisterIntoWithKey t r k w =
     (case r of
        Nil \<Rightarrow> Inl NilPointerDereference
      | Addr a \<Rightarrow>
          (case typeMapping (heap w a) of
             None \<Rightarrow> Inl AssignmentToEntryInNilMap
           | Some m \<Rightarrow>
               Inr (w\<lparr>heap := (heap w)(a := (heap w a)\<lparr>typeMapping := Some (m(k \<mapsto> Hydrator t))\<rparr>)\<rparr>)))"

definition RegisterInto :: "gotype \<Rightarrow> ptr \<Rightarrow> world \<Rightarrow> goerror + world" where
  "RegisterInto t r w = (let typeKey = DerivedTypeKey t in RegisterIntoWithKey t r typeKey w)"

definition RegisterWithKey :: "gotype \<Rightarrow> key \<Rightarrow> world \<Rightarrow> goerror + world" where
  "RegisterWithKey t k w = RegisterIntoWithKey t (DefaultRegistry w) k w"

definition Register :: "gotype \<Rightarrow> world \<Rightarrow> goerror + world" where
  "Register t w = (let typeKey = DerivedTypeKey t in RegisterWithKey t typeKey w)"

subsection \<open>Resolution\<close>

text \<open>
  \<open>registry.typeMapping[typeKey]().(T)\<close>: a missing key reads the nil function, and
  calling it panics; the result of the factory is then asserted to \<open>T\<close>.
\<close>

definition ResolveFromWithKey :: "gotype \<Rightarrow> ptr \<Rightarrow> key \<Rightarrow> world \<Rightarrow> goerror + goval" where
  "ResolveFromWithKey t r k w =
     sum_bind (deref w r) (\<lambda>reg.
       case map_get (typeMapping reg) k of
         None \<Rightarrow> Inl NilPointerDereference
       | Some f \<Rightarrow> type_assert (call_factory f) t)"

definition ResolveFrom :: "gotype \<Rightarrow> ptr \<Rightarrow> world \<Rightarrow> goerror + goval" where
  "ResolveFrom t r w = (let typeKey = DerivedTypeKey t in ResolveFromWithKey t r typeKey w)"

definition ResolveWithKey :: "gotype \<Rightarrow> key \<Rightarrow> world \<Rightarrow> goerror + goval" where
  "ResolveWithKey t k w = ResolveFromWithKey t (DefaultRegistry w) k w"

definition Resolve :: "gotype \<Rightarrow> world \<Rightarrow> goerror + goval" where
  "Resolve t w = (let typeKey = DerivedTypeKey t in ResolveWithKey t typeKey w)"

subsection \<open>Existence checks\<close>

definition KnowsTypeKeyIn :: "ptr \<Rightarrow> key \<Rightarrow> world \<Rightarrow> goerror + bool" where
  "KnowsTypeKeyIn r k w = sum_bind (deref w r) (\<lambda>reg. Inr (map_get (typeMapping reg) k \<noteq> None))"

definition KnowsIn :: "gotype \<Rightarrow> ptr \<Rightarrow> world \<Rightarrow> goerror + bool" where
  "KnowsIn t r w = (let typeKey = DerivedTypeKey t in KnowsTypeKeyIn r typeKey w)"

definition KnowsTypeKey :: "key \<Rightarrow> world \<Rightarrow> goerror + bool" where
  "KnowsTypeKey k w = KnowsTypeKeyIn (DefaultRegistry w) k w"

definition Knows :: "gotype \<Rightarrow> world \<Rightarrow> goerror + bool" where
  "Knows t w = (let typeKey = DerivedTypeKey t in KnowsTypeKey typeKey w)"

lemmas shape_defs [registry_simps] =
  RegisterInto_def RegisterWithKey_def Register_def
  ResolveFrom_def ResolveWithKey_def Resolve_def
  KnowsIn_def KnowsTypeKey_def Knows_def

subsection \<open>Well-formed states\<close>

text \<open>
  A pointer is live when it points to an allocated registry whose map is not nil:
  every registry made by \<open>NewRegistry\<close> is, a \<open>Registry{}\<close> literal is not.
  Cells past the allocation counter hold the zero registry.
\<close>

definition live :: "world \<Rightarrow> ptr \<Rightarrow> bool" where
  "live w p \<longleftrightarrow> (case p of Nil \<Rightarrow> False | Addr a \<Rightarrow> a < next_addr w \<and> typeMapping (heap w a) \<noteq> None)"

definition allocated :: "world \<Rightarrow> ptr \<Rightarrow> bool" where
  "allocated w p \<longleftrightarrow> (case p of Nil \<Rightarrow> False | Addr a \<Rightarrow> a < next_addr w)"

definition wf_world :: "world \<Rightarrow> bool" where
  "wf_world w \<longleftrightarrow> live w (DefaultRegistry w) \<and> (\<forall>a. next_addr w \<le> a \<longrightarrow> heap w a = zero_Registry)"

text \<open>The entries of a registry, read through a pointer (empty for nil).\<close>

definition entries :: "world \<Rightarrow> ptr \<Rightarrow> key \<Rightarrow> factory option" where
  "entries w p k = (case p of Nil \<Rightarrow> None | Addr a \<Rightarrow> map_get (typeMapping (heap w a)) k)"

subsection \<open>Evaluation rules\<close>

lemma deref_simps [registry_simps]:
  "deref w Nil = Inl NilPointerDereference"
  "deref w (Addr a) = Inr (heap w a)"
  by (simp_all add: deref_def)

lemma entries_simps [registry_simps]:
  "entries w Nil = Map.empty"
  "entries w (Addr a) = map_get (typeMapping (heap w a))"
  by (simp_all add: entries_def fun_eq_iff)

lemma DerivedTypeKey_eq [registry_simps]:
  "DerivedTypeKey t = (if is_interface t then ''<nil>'' else type_string t)"
  by (simp add: DerivedTypeKey_def Hydrate_def reflect_TypeOf_zero sprintf_v_def)

lemma call_factory_Hydrator [registry_simps]:
  "call_factory (Hydrator t) = to_any t (zero_value t)"
  by (simp add: call_factory_def Hydrate_def)

lemma any_ok_call_factory: "any_ok (call_factory f)"
  by (cases f) (simp add: call_factory_Hydrator to_any_ok zero_value_has_type)

text \<open>
  The three primitives read through \<open>entries\<close>: a nil pointer panics before the map is
  touched; otherwise only the entry at the key matters.
\<close>

lemma ResolveFromWithKey_entries:
  "ResolveFromWithKey t r k w =
     (if r = Nil then Inl NilPointerDereference
      else case entries w r k of
             None \<Rightarrow> Inl NilPointerDereference
           | Some f \<Rightarrow> type_assert (call_factory f) t)"
  by (cases r) (simp_all add: ResolveFromWithKey_def registry_simps)

lemma KnowsTypeKeyIn_entries:
  "KnowsTypeKeyIn r k w = (if r = Nil then Inl NilPointerDereference else Inr (entries w r k \<noteq> None))"
  by (cases r) (simp_all add: KnowsTypeKeyIn_def registry_simps)

lemma RegisterIntoWithKey_Inr:
  "RegisterIntoWithKey t r k w = Inr w' \<longleftrightarrow>
     (\<exists>a m. r = Addr a \<and> typeMapping (heap w a) = Some m \<and>
        w' = w\<lparr>heap := (heap w)(a := (heap w a)\<lparr>typeMapping := Some (m(k \<mapsto> Hydrator t))\<rparr>)\<rparr>)"
  by (auto simp: RegisterIntoWithKey_def split: ptr.splits option.splits)

lemma RegisterIntoWithKey_entries:
  assumes "RegisterIntoWithKey t r k w = Inr w'"
  shows "entries w' p = (if p = r then (entries w r)(k \<mapsto> Hydrator t) else entries w p)"
  using assms by (cases p) (auto simp: RegisterIntoWithKey_Inr registry_simps)

lemma RegisterIntoWithKey_live_ok: "live w r \<Longrightarrow> \<exists>w'. RegisterIntoWithKey t r k w = Inr w'"
  by (auto simp: RegisterIntoWithKey_def live_def split: ptr.splits)

lemma RegisterIntoWithKey_fields:
  assumes "RegisterIntoWithKey t r k w = Inr w'"
  shows "next_addr w' = next_addr w" and "DefaultRegistry w' = DefaultRegistry w"
  using assms by (auto simp: RegisterIntoWithKey_Inr)

lemma RegisterIntoWithKey_live:
  assumes "RegisterIntoWithKey t r k w = Inr w'"
  shows "live w' p = live w p"
  using assms by (cases p) (auto simp: RegisterIntoWithKey_Inr live_def split: if_splits)

lemma NewRegistry_entries:
  "entries (snd (NewRegistry w)) p =
     (if p = fst (NewRegistry w) then Map.empty else entries w p)"
  by (cases p) (auto simp: NewRegistry_def registry_simps)

lemma NewRegistry_live:
  "live (snd (NewRegistry w)) p \<longleftrightarrow> p = fst (NewRegistry w) \<or> live w p"
  by (cases p) (auto simp: NewRegistry_def live_def)

lemma live_allocated: "live w p \<Longrightarrow> allocated w p"
  by (auto simp: live_def allocated_def split: ptr.splits)

lemma NewRegistry_fresh: "allocated w p \<Longrightarrow> fst (NewRegistry w) \<noteq> p"
  by (auto simp: NewRegistry_def allocated_def)

lemma NewRegistry_fields [simp]:
  "DefaultRegistry (snd (NewRegistry w)) = DefaultRegistry w"
  "next_addr (snd (NewRegistry w)) = Suc (next_addr w)"
  by (simp_all add: NewRegistry_def)

lemma init_world_simps [registry_simps]:
  "DefaultRegistry init_world = Addr 0"
  "next_addr init_world = 1"
  "heap init_world 0 = \<lparr>typeMapping = Some Map.empty\<rparr>"
  "0 < a \<Longrightarrow> heap init_world a = zero_Registry"
  by (simp_all add: init_world_def NewRegistry_def empty_world_def)

lemma type_assert_Hydrator:
  "type_assert (call_factory (Hydrator d)) t =
     (if is_interface d then Inl (TypeAssertionError None t)
      else if is_interface t then
        (if implements d t then Inr (Iface (Some (d, Zero d))) else Inl (TypeAssertionError (Some d) t))
      else if d = t then Inr (Zero t) else Inl (TypeAssertionError (Some d) t))"
  by (simp add: call_factory_Hydrator to_any_zero_value)

subsection \<open>Properties of the registry\<close>

text \<open>
  C1. Round trip: after \<open>RegisterIntoWithKey[T](r, k)\<close> returns, \<open>ResolveFromWithKey[T](r, k)\<close>
  returns a new zero value of \<open>T\<close> when \<open>T\<close> is not an interface type. When \<open>T\<close> is an
  interface type it panics: the factory returns the nil interface, which no type
  assertion accepts.
\<close>

theorem register_then_resolve:
  assumes "RegisterIntoWithKey t r k w = Inr w'"
  shows "ResolveFromWithKey t r k w' =
           (if is_interface t then Inl (TypeAssertionError None t) else Inr (Hydrate t))"
proof -
  from assms have "r \<noteq> Nil" by (auto simp: RegisterIntoWithKey_Inr)
  moreover from assms have "entries w' r k = Some (Hydrator t)"
    by (simp add: RegisterIntoWithKey_entries)
  ultimately show ?thesis
    by (simp add: ResolveFromWithKey_entries type_assert_Hydrator Hydrate_def zero_value_def)
qed

theorem register_then_resolve_witness:
  "\<exists>w'. RegisterIntoWithKey (Basic ''int'') (DefaultRegistry init_world) ''k'' init_world = Inr w' \<and>
     ResolveFromWithKey (Basic ''int'') (DefaultRegistry init_world) ''k'' w' = Inr (Hydrate (Basic ''int''))"
proof -
  obtain w' where reg: "RegisterIntoWithKey (Basic ''int'') (DefaultRegistry init_world) ''k'' init_world = Inr w'"
    by (simp add: RegisterIntoWithKey_def registry_simps)
  from register_then_resolve [OF reg] reg show ?thesis by auto
qed

text \<open>
  C2. After a registration returns, the existence check for the same registry and key
  reports true.
\<close>

theorem register_then_knows:
  assumes "RegisterIntoWithKey t r k w = Inr w'"
  shows "KnowsTypeKeyIn r k w' = Inr True"
proof -
  from assms have "r \<noteq> Nil" by (auto simp: RegisterIntoWithKey_Inr)
  with assms show ?thesis by (simp add: KnowsTypeKeyIn_entries RegisterIntoWithKey_entries)
qed

theorem register_then_knows_witness:
  "\<exists>w'. RegisterIntoWithKey (Basic ''int'') (DefaultRegistry init_world) ''k'' init_world = Inr w' \<and>
     KnowsTypeKeyIn (DefaultRegistry init_world) ''k'' w' = Inr True"
proof -
  obtain w' where reg: "RegisterIntoWithKey (Basic ''int'') (DefaultRegistry init_world) ''k'' init_world = Inr w'"
    by (simp add: RegisterIntoWithKey_def registry_simps)
  from register_then_knows [OF reg] reg show ?thesis by auto
qed

text \<open>
  C6. Last write wins: registering under a key that already has a factory leaves the
  registry exactly as if only the second registration had happened.
\<close>

theorem register_overwrite:
  assumes "RegisterIntoWithKey t1 r k w = Inr w1"
  shows "RegisterIntoWithKey t2 r k w1 = RegisterIntoWithKey t2 r k w"
proof -
  from assms obtain a m where r: "r = Addr a" and m: "typeMapping (heap w a) = Some m"
    and w1: "w1 = w\<lparr>heap := (heap w)(a := (heap w a)\<lparr>typeMapping := Some (m(k \<mapsto> Hydrator t1))\<rparr>)\<rparr>"
    by (auto simp: RegisterIntoWithKey_Inr)
  then show ?thesis by (simp add: RegisterIntoWithKey_def)
qed

theorem register_overwrite_witness:
  "\<exists>w1. RegisterIntoWithKey (Basic ''int'') (DefaultRegistry init_world) ''k'' init_world = Inr w1 \<and>
     RegisterIntoWithKey (Basic ''string'') (DefaultRegistry init_world) ''k'' w1 =
     RegisterIntoWithKey (Basic ''string'') (DefaultRegistry init_world) ''k'' init_world"
proof -
  obtain w1 where reg: "RegisterIntoWithKey (Basic ''int'') (DefaultRegistry init_world) ''k'' init_world = Inr w1"
    by (simp add: RegisterIntoWithKey_def registry_simps)
  from register_overwrite [OF reg] reg show ?thesis by auto
qed

text \<open>
  C7. Isolation: a registration changes only its own registry at its own key; every
  existence check and every resolution at another registry or another key answers as
  before.
\<close>

theorem register_isolation:
  assumes "RegisterIntoWithKey t r k w = Inr w'"
    and "p \<noteq> r \<or> k' \<noteq> k"
  shows "KnowsTypeKeyIn p k' w' = KnowsTypeKeyIn p k' w \<and>
         ResolveFromWithKey u p k' w' = ResolveFromWithKey u p k' w"
proof -
  from assms have "entries w' p k' = entries w p k'"
    by (auto simp: RegisterIntoWithKey_entries)
  then show ?thesis by (simp add: KnowsTypeKeyIn_entries ResolveFromWithKey_entries)
qed

theorem register_isolation_witness:
  "\<exists>w'. RegisterIntoWithKey (Basic ''int'') (Addr 1) ''k'' (snd (NewRegistry init_world)) = Inr w' \<and>
     Addr 0 \<noteq> Addr 1 \<and>
     KnowsTypeKeyIn (Addr 0) ''k'' w' = KnowsTypeKeyIn (Addr 0) ''k'' (snd (NewRegistry init_world)) \<and>
     ResolveFromWithKey (Basic ''int'') (Addr 0) ''k'' w' =
       ResolveFromWithKey (Basic ''int'') (Addr 0) ''k'' (snd (NewRegistry init_world))"
proof -
  obtain w' where reg: "RegisterIntoWithKey (Basic ''int'') (Addr 1) ''k'' (snd (NewRegistry init_world)) = Inr w'"
    by (simp add: RegisterIntoWithKey_def NewRegistry_def registry_simps)
  have ne: "Addr 0 \<noteq> Addr 1 \<or> ''k'' \<noteq> ''k''" by simp
  from register_isolation [OF reg ne] reg show ?thesis by auto
qed

text \<open>
  C8. Resolving a key the registry does not know panics (the nil function is called);
  it never returns a zero value silently.
\<close>

theorem resolve_unregistered:
  assumes "KnowsTypeKeyIn r k w = Inr False"
  shows "ResolveFromWithKey t r k w = Inl NilPointerDereference"
  using assms by (simp add: KnowsTypeKeyIn_entries ResolveFromWithKey_entries split: if_splits)

theorem resolve_unregistered_witness:
  "KnowsTypeKeyIn (DefaultRegistry init_world) ''k'' init_world = Inr False \<and>
   ResolveFromWithKey (Basic ''int'') (DefaultRegistry init_world) ''k'' init_world = Inl NilPointerDereference"
proof -
  have h: "KnowsTypeKeyIn (DefaultRegistry init_world) ''k'' init_world = Inr False"
    by (simp add: KnowsTypeKeyIn_def registry_simps)
  from h resolve_unregistered [OF h] show ?thesis by simp
qed

text \<open>
  C9. Type safety of resolution: a value returned by \<open>ResolveFromWithKey[T]\<close> has type
  \<open>T\<close>, and the registry knows the key.
\<close>

theorem resolve_sound:
  assumes "ResolveFromWithKey t r k w = Inr v"
  shows "has_type v t \<and> KnowsTypeKeyIn r k w = Inr True"
proof -
  from assms obtain f where r: "r \<noteq> Nil" and f: "entries w r k = Some f"
    and a: "type_assert (call_factory f) t = Inr v"
    by (auto simp: ResolveFromWithKey_entries split: if_splits option.splits)
  from a have "has_type v t" by (rule type_assert_sound [OF any_ok_call_factory])
  with r f show ?thesis by (simp add: KnowsTypeKeyIn_entries)
qed

theorem resolve_sound_witness:
  "\<exists>w'. RegisterIntoWithKey (Basic ''int'') (Addr 0) ''k'' init_world = Inr w' \<and>
     ResolveFromWithKey (Basic ''int'') (Addr 0) ''k'' w' = Inr (Zero (Basic ''int'')) \<and>
     has_type (Zero (Basic ''int'')) (Basic ''int'') \<and> KnowsTypeKeyIn (Addr 0) ''k'' w' = Inr True"
proof -
  obtain w' where reg: "RegisterIntoWithKey (Basic ''int'') (Addr 0) ''k'' init_world = Inr w'"
    by (simp add: RegisterIntoWithKey_def registry_simps)
  then have res: "ResolveFromWithKey (Basic ''int'') (Addr 0) ''k'' w' = Inr (Zero (Basic ''int''))"
    by (simp add: ResolveFromWithKey_entries RegisterIntoWithKey_entries type_assert_Hydrator)
  from reg res resolve_sound [OF res] show ?thesis by auto
qed

text \<open>
  C10. Registration panics exactly when the pointer is nil (nil dereference) or the
  registry's map is nil, as in a \<open>Registry{}\<close> literal (assignment to entry in nil map).
  On a registry made by \<open>NewRegistry\<close> it always returns.
\<close>

theorem RegisterIntoWithKey_panics:
  "RegisterIntoWithKey t Nil k w = Inl NilPointerDereference \<and>
   (heap w a = zero_Registry \<longrightarrow> RegisterIntoWithKey t (Addr a) k w = Inl AssignmentToEntryInNilMap) \<and>
   (live w r \<longrightarrow> is_ok (RegisterIntoWithKey t r k w))"
  by (auto simp: RegisterIntoWithKey_def zero_Registry_def live_def split: ptr.splits)

theorem RegisterIntoWithKey_panics_witness:
  "RegisterIntoWithKey (Basic ''int'') Nil ''k'' init_world = Inl NilPointerDereference \<and>
   RegisterIntoWithKey (Basic ''int'') (Addr 1) ''k'' init_world = Inl AssignmentToEntryInNilMap \<and>
   is_ok (RegisterIntoWithKey (Basic ''int'') (Addr 0) ''k'' init_world)"
proof -
  have "heap init_world 1 = zero_Registry" by (simp add: registry_simps)
  moreover have "live init_world (Addr 0)" by (simp add: live_def registry_simps)
  ultimately show ?thesis
    using RegisterIntoWithKey_panics [of "Basic ''int''" "''k''" init_world 1 "Addr 0"] by simp
qed

subsection \<open>Properties of key derivation\<close>

text \<open>
  C17. The derived key of a well-formed non-interface type never equals the key that all
  interface types share, since type names contain no \<open><\<close>.
\<close>

theorem DerivedTypeKey_concrete_not_interface:
  assumes "wf_type t" and "\<not> is_interface t" and "is_interface i"
  shows "DerivedTypeKey t \<noteq> DerivedTypeKey i"
  using assms by (simp add: DerivedTypeKey_eq type_string_not_nil)

theorem DerivedTypeKey_concrete_not_interface_witness:
  "wf_type (Basic ''int'') \<and> \<not> is_interface (Basic ''int'') \<and> is_interface (Interface []) \<and>
   DerivedTypeKey (Basic ''int'') \<noteq> DerivedTypeKey (Interface [])"
proof -
  have h: "wf_type (Basic ''int'')" "\<not> is_interface (Basic ''int'')" "is_interface (Interface [])"
    by (simp_all add: predeclared_def)
  from h DerivedTypeKey_concrete_not_interface [OF h] show ?thesis by simp
qed

text \<open>
  C11. A named type's key uses its package name, not its import path. So any two distinct
  concrete named types with the same package and type name from different import paths
  (two \<open>models.User\<close> of different modules) get the same derived key. From every
  state whose default registry is live, \<open>Register\<close> of both returns, and \<open>Resolve\<close>
  of the first then panics: the second registration has replaced its factory.
\<close>

theorem DerivedTypeKey_package_collision:
  assumes "p1 \<noteq> p2" and "live w (DefaultRegistry w)"
  shows "Named p1 pkg n (NamedConcrete ms1) \<noteq> Named p2 pkg n (NamedConcrete ms2) \<and>
         DerivedTypeKey (Named p1 pkg n (NamedConcrete ms1)) =
           DerivedTypeKey (Named p2 pkg n (NamedConcrete ms2)) \<and>
         (\<exists>w1 w2. Register (Named p1 pkg n (NamedConcrete ms1)) w = Inr w1 \<and>
                  Register (Named p2 pkg n (NamedConcrete ms2)) w1 = Inr w2 \<and>
                  Resolve (Named p1 pkg n (NamedConcrete ms1)) w2 =
                    Inl (TypeAssertionError (Some (Named p2 pkg n (NamedConcrete ms2)))
                                            (Named p1 pkg n (NamedConcrete ms1))))"
proof -
  let ?a = "Named p1 pkg n (NamedConcrete ms1)"
  let ?b = "Named p2 pkg n (NamedConcrete ms2)"
  let ?r = "DefaultRegistry w"
  have key: "DerivedTypeKey ?b = DerivedTypeKey ?a"
    by (simp add: DerivedTypeKey_eq)
  from assms(2) obtain w1 where r1: "RegisterIntoWithKey ?a ?r (DerivedTypeKey ?a) w = Inr w1"
    using RegisterIntoWithKey_live_ok by blast
  have d1: "DefaultRegistry w1 = ?r" and l1: "live w1 ?r"
    using r1 assms(2) by (simp_all add: RegisterIntoWithKey_fields RegisterIntoWithKey_live)
  from l1 obtain w2 where r2: "RegisterIntoWithKey ?b ?r (DerivedTypeKey ?a) w1 = Inr w2"
    using RegisterIntoWithKey_live_ok by blast
  have d2: "DefaultRegistry w2 = ?r"
    using r2 d1 by (simp add: RegisterIntoWithKey_fields)
  have nil: "?r \<noteq> Nil"
    using assms(2) by (auto simp: live_def)
  have "entries w2 ?r (DerivedTypeKey ?a) = Some (Hydrator ?b)"
    using r2 by (simp add: RegisterIntoWithKey_entries)
  then have "Resolve ?a w2 = Inl (TypeAssertionError (Some ?b) ?a)"
    using d2 nil assms(1) by (simp add: shape_defs ResolveFromWithKey_entries type_assert_Hydrator)
  moreover have "Register ?a w = Inr w1" "Register ?b w1 = Inr w2"
    using r1 r2 d1 key by (simp_all add: shape_defs)
  ultimately show ?thesis
    using assms(1) key by auto
qed

theorem DerivedTypeKey_package_collision_witness:
  "Named ''github.com/acme/models'' ''models'' ''User'' (NamedConcrete []) \<noteq>
     Named ''example.org/shop/models'' ''models'' ''User'' (NamedConcrete []) \<and>
   DerivedTypeKey (Named ''github.com/acme/models'' ''models'' ''User'' (NamedConcrete [])) = ''models.User'' \<and>
   DerivedTypeKey (Named ''example.org/shop/models'' ''models'' ''User'' (NamedConcrete [])) = ''models.User'' \<and>
   (\<exists>w1 w2. Register (Named ''github.com/acme/models'' ''models'' ''User'' (NamedConcrete [])) init_world = Inr w1 \<and>
      Register (Named ''example.org/shop/models'' ''models'' ''User'' (NamedConcrete [])) w1 = Inr w2 \<and>
      Resolve (Named ''github.com/acme/models'' ''models'' ''User'' (NamedConcrete [])) w2 =
        Inl (TypeAssertionError (Some (Named ''example.org/shop/models'' ''models'' ''User'' (NamedConcrete [])))
                                (Named ''github.com/acme/models'' ''models'' ''User'' (NamedConcrete []))))"
proof -
  have p: "''github.com/acme/models'' \<noteq> ''example.org/shop/models''" by simp
  have l: "live init_world (DefaultRegistry init_world)" by (simp add: live_def registry_simps)
  show ?thesis
    using DerivedTypeKey_package_collision [OF p l, of "''models''" "''User''" "[]" "[]"]
    by (simp add: DerivedTypeKey_eq)
qed

subsection \<open>Ordering of registrations\<close>

text \<open>
  C16. Two successful registrations at different (registry, key) pairs commute: the order
  of registration matters only for the same registry and key.
\<close>

theorem register_commute:
  assumes "live w r1" and "live w r2" and "r1 \<noteq> r2 \<or> k1 \<noteq> k2"
  shows "sum_bind (RegisterIntoWithKey t1 r1 k1 w) (RegisterIntoWithKey t2 r2 k2) =
         sum_bind (RegisterIntoWithKey t2 r2 k2 w) (RegisterIntoWithKey t1 r1 k1)"
proof -
  from assms(1,2) obtain a1 a2 m1 m2 where r: "r1 = Addr a1" "r2 = Addr a2"
    and m: "typeMapping (heap w a1) = Some m1" "typeMapping (heap w a2) = Some m2"
    by (auto simp: live_def split: ptr.splits)
  show ?thesis
  proof (cases "a1 = a2")
    case True
    with assms(3) r m show ?thesis
      by (simp add: RegisterIntoWithKey_def fun_upd_twist)
  next
    case False
    with r m show ?thesis
      by (simp add: RegisterIntoWithKey_def fun_upd_twist)
  qed
qed

theorem register_commute_witness:
  "live init_world (Addr 0) \<and> ''a'' \<noteq> ''b'' \<and>
   sum_bind (RegisterIntoWithKey (Basic ''int'') (Addr 0) ''a'' init_world)
     (RegisterIntoWithKey (Basic ''bool'') (Addr 0) ''b'') =
   sum_bind (RegisterIntoWithKey (Basic ''bool'') (Addr 0) ''b'' init_world)
     (RegisterIntoWithKey (Basic ''int'') (Addr 0) ''a'')"
proof -
  have l: "live init_world (Addr 0)" by (simp add: live_def registry_simps)
  have ne: "Addr 0 \<noteq> Addr 0 \<or> ''a'' \<noteq> ''b''" by simp
  from l register_commute [OF l l ne, of "Basic ''int''" "Basic ''bool''"] show ?thesis by simp
qed

end
