(* ===== verification/RegistryTest.thy ===== *)
theory RegistryTest
  imports Registry
begin

text \<open>
  The test suite \<open>src/Registry_test.go\<close>. \<open>TestHydration\<close> runs 64 subtests in order on
  the shared default registry. Case \<open>i\<close> chooses, by the bits of \<open>i\<close>, an explicit or
  derived key and an explicit or default registry, separately for registration,
  resolution and the existence check. A subtest registers \<open>dummyType\<close>, asserts that the
  check returns true, and asserts that resolution does not panic. A panic outside the
  \<open>does.NotPanic\<close> assertion is not recovered and ends the test binary, so the run stops
  there. The assertions of the external library are modelled only by the facts they test.
\<close>

unbundle bit_operations_syntax

text \<open>\<open>type dummyType struct{}\<close> in package \<open>hydration\<close>; it declares no methods.\<close>

definition dummyType :: gotype where
  "dummyType = Named ''github.com/lukejoshuapark/hydration'' ''hydration'' ''dummyType'' (NamedConcrete [])"

record testCase =
  ExplicitTypeKeyWhenRegistering :: bool
  ExplicitRegistryWhenRegistering :: bool
  ExplicitTypeKeyWhenResolving :: bool
  ExplicitRegistryWhenResolving :: bool
  ExplicitTypeKeyWhenChecking :: bool
  ExplicitRegistryWhenChecking :: bool

definition createTestCase :: "int \<Rightarrow> testCase" where
  "createTestCase i =
     \<lparr>ExplicitTypeKeyWhenRegistering = (i AND 1 = 1),
      ExplicitRegistryWhenRegistering = (i AND 2 = 2),
      ExplicitTypeKeyWhenResolving = (i AND 4 = 4),
      ExplicitRegistryWhenResolving = (i AND 8 = 8),
      ExplicitTypeKeyWhenChecking = (i AND 16 = 16),
      ExplicitRegistryWhenChecking = (i AND 32 = 32)\<rparr>"

definition register :: "testCase \<Rightarrow> world \<Rightarrow> goerror + world" where
  "register c w =
     (if ExplicitRegistryWhenRegistering c then
        (if ExplicitTypeKeyWhenRegistering c
         then RegisterIntoWithKey dummyType (DefaultRegistry w) ''hydration.dummyType'' w
         else RegisterInto dummyType (DefaultRegistry w) w)
      else
        (if ExplicitTypeKeyWhenRegistering c
         then RegisterWithKey dummyType ''hydration.dummyType'' w
         else Register dummyType w))"

definition check :: "testCase \<Rightarrow> world \<Rightarrow> goerror + bool" where
  "check c w =
     (if ExplicitRegistryWhenChecking c then
        (if ExplicitTypeKeyWhenChecking c
         then KnowsTypeKeyIn (DefaultRegistry w) ''hydration.dummyType'' w
         else KnowsIn dummyType (DefaultRegistry w) w)
      else
        (if ExplicitTypeKeyWhenChecking c
         then KnowsTypeKey ''hydration.dummyType'' w
         else Knows dummyType w))"

definition resolve :: "testCase \<Rightarrow> world \<Rightarrow> goerror + goval" where
  "resolve c w =
     (if ExplicitRegistryWhenResolving c then
        (if ExplicitTypeKeyWhenResolving c
         then ResolveFromWithKey dummyType (DefaultRegistry w) ''hydration.dummyType'' w
         else ResolveFrom dummyType (DefaultRegistry w) w)
      else
        (if ExplicitTypeKeyWhenResolving c
         then ResolveWithKey dummyType ''hydration.dummyType'' w
         else Resolve dummyType w))"

text \<open>
  The outcome of one subtest: an unrecovered panic, or the two assertions' facts
  (\<open>exists\<close> is true; the resolution returned without panicking).
\<close>

datatype case_outcome = Panicked goerror | Completed bool bool

definition run_case :: "testCase \<Rightarrow> world \<Rightarrow> world \<times> case_outcome" where
  "run_case c w =
     (case register c w of
        Inl e \<Rightarrow> (w, Panicked e)
      | Inr w' \<Rightarrow>
          (case check c w' of
             Inl e \<Rightarrow> (w', Panicked e)
           | Inr exists \<Rightarrow> (w', Completed exists (is_ok (resolve c w')))))"

fun run_cases :: "int list \<Rightarrow> world \<Rightarrow> (int \<times> case_outcome) list" where
  "run_cases [] w = []"
| "run_cases (i # is) w =
     (let (w', out) = run_case (createTestCase i) w
      in (i, out) # (case out of Panicked e \<Rightarrow> [] | Completed a b \<Rightarrow> run_cases is w'))"

definition TestHydration :: "world \<Rightarrow> (int \<times> case_outcome) list" where
  "TestHydration w = run_cases [0..push_bit 6 1 - 1] w"

subsection \<open>Every shape agrees on one registry and one key\<close>

lemma dummyType_key: "DerivedTypeKey dummyType = ''hydration.dummyType''"
  by (simp add: dummyType_def DerivedTypeKey_eq)

lemma dummyType_concrete: "\<not> is_interface dummyType"
  by (simp add: dummyType_def)

lemma register_eq:
  "register c w = RegisterIntoWithKey dummyType (DefaultRegistry w) ''hydration.dummyType'' w"
  by (simp add: register_def shape_defs dummyType_key)

lemma check_eq:
  "check c w = KnowsTypeKeyIn (DefaultRegistry w) ''hydration.dummyType'' w"
  by (simp add: check_def shape_defs dummyType_key)

lemma resolve_eq:
  "resolve c w = ResolveFromWithKey dummyType (DefaultRegistry w) ''hydration.dummyType'' w"
  by (simp add: resolve_def shape_defs dummyType_key)

lemma run_case_live:
  assumes "live w (DefaultRegistry w)"
  shows "\<exists>w'. run_case c w = (w', Completed True True) \<and> live w' (DefaultRegistry w')"
proof -
  from assms obtain w' where reg: "RegisterIntoWithKey dummyType (DefaultRegistry w) ''hydration.dummyType'' w = Inr w'"
    using RegisterIntoWithKey_live_ok by blast
  have d: "DefaultRegistry w' = DefaultRegistry w" by (rule RegisterIntoWithKey_fields(2) [OF reg])
  have r: "DefaultRegistry w \<noteq> Nil" using assms by (auto simp: live_def)
  have e: "entries w' (DefaultRegistry w) ''hydration.dummyType'' = Some (Hydrator dummyType)"
    using reg by (simp add: RegisterIntoWithKey_entries)
  have "check c w' = Inr True"
    using d r e by (simp add: check_eq KnowsTypeKeyIn_entries)
  moreover have "is_ok (resolve c w')"
    using d r e dummyType_concrete
    by (simp add: resolve_eq ResolveFromWithKey_entries type_assert_Hydrator)
  moreover have "live w' (DefaultRegistry w')"
    using assms d by (simp add: RegisterIntoWithKey_live [OF reg])
  ultimately show ?thesis using reg by (simp add: run_case_def register_eq)
qed

lemma run_cases_live:
  "live w (DefaultRegistry w) \<Longrightarrow> run_cases is w = map (\<lambda>i. (i, Completed True True)) is"
proof (induction "is" arbitrary: w)
  case Nil
  then show ?case by simp
next
  case (Cons i "is")
  from run_case_live [OF Cons.prems, of "createTestCase i"] obtain w'
    where "run_case (createTestCase i) w = (w', Completed True True)" and "live w' (DefaultRegistry w')"
    by blast
  with Cons.IH show ?case by simp
qed

subsection \<open>Properties of the test suite\<close>

text \<open>
  C5. The round trip of the spec for every combination of shapes: from any state whose
  default registry is live, one subtest with any choice of the six flags registers
  \<open>dummyType\<close>. Its check then returns true, its resolution does not panic, and the
  default registry stays live for the next subtest.
\<close>

theorem run_case_passes:
  assumes "live w (DefaultRegistry w)"
  shows "snd (run_case c w) = Completed True True \<and> live (fst (run_case c w)) (DefaultRegistry (fst (run_case c w)))"
  using run_case_live [OF assms, of c] by auto

theorem run_case_passes_witness:
  "live init_world (DefaultRegistry init_world) \<and>
   snd (run_case (createTestCase 63) init_world) = Completed True True"
proof -
  have l: "live init_world (DefaultRegistry init_world)" by (simp add: live_def registry_simps)
  from l run_case_passes [OF l, of "createTestCase 63"] show ?thesis by simp
qed

end
