(* ===== verification/RegistryAbs.thy ===== *)
theory RegistryAbs
  imports Registry
begin

text \<open>
  The abstract contract of a registry as the spec states it (spec, section 4). A registry
  is a catalog from keys to the type registered under them. Registration updates the
  catalog, and the last write wins. An existence check asks whether the key is in the
  catalog. Resolution fails on an unknown key. Otherwise it yields a new default value of
  the registered type, viewed as the requested type, and fails when it cannot be viewed so.
  The abstraction reads the catalog off the heap through \<open>entries\<close>. The lemmas show
  where \<open>src/Registry.go\<close> implements the contract and where it does not.
\<close>

type_synonym catalog = "key \<rightharpoonup> gotype"

datatype spec_error = UnregisteredKey | TypeMismatch

definition spec_register :: "catalog \<Rightarrow> key \<Rightarrow> gotype \<Rightarrow> catalog" where
  "spec_register c k t = c(k \<mapsto> t)"

definition spec_knows :: "catalog \<Rightarrow> key \<Rightarrow> bool" where
  "spec_knows c k \<longleftrightarrow> c k \<noteq> None"

text \<open>
  A value produced for type \<open>d\<close> can be viewed as \<open>t\<close> when \<open>t\<close> is \<open>d\<close>, or when \<open>t\<close> is an
  interface that the non-interface \<open>d\<close> implements.
\<close>

definition viewable :: "gotype \<Rightarrow> gotype \<Rightarrow> bool" where
  "viewable d t \<longleftrightarrow> d = t \<or> (is_interface t \<and> \<not> is_interface d \<and> implements d t)"

definition spec_value :: "gotype \<Rightarrow> gotype \<Rightarrow> goval" where
  "spec_value d t = (if d = t then zero_value t else Iface (Some (d, zero_value d)))"

definition spec_resolve :: "catalog \<Rightarrow> key \<Rightarrow> gotype \<Rightarrow> spec_error + goval" where
  "spec_resolve c k t =
     (case c k of
        None \<Rightarrow> Inl UnregisteredKey
      | Some d \<Rightarrow> if viewable d t then Inr (spec_value d t) else Inl TypeMismatch)"

subsection \<open>Abstraction\<close>

definition factory_type :: "factory \<Rightarrow> gotype" where
  "factory_type f = (case f of Hydrator t \<Rightarrow> t)"

definition abs_catalog :: "world \<Rightarrow> ptr \<Rightarrow> catalog" where
  "abs_catalog w p = (\<lambda>k. map_option factory_type (entries w p k))"

fun abs_resolve_error :: "goerror \<Rightarrow> spec_error" where
  "abs_resolve_error (TypeAssertionError d t) = TypeMismatch"
| "abs_resolve_error e = UnregisteredKey"

text \<open>The entries stored under a catalog entry of a non-interface type.\<close>

definition concrete_catalog :: "catalog \<Rightarrow> bool" where
  "concrete_catalog c \<longleftrightarrow> (\<forall>k d. c k = Some d \<longrightarrow> \<not> is_interface d)"

lemma abs_catalog_Some:
  "abs_catalog w p k = Some d \<longleftrightarrow> entries w p k = Some (Hydrator d)"
proof (cases "entries w p k")
  case (Some f)
  then show ?thesis by (cases f) (auto simp: abs_catalog_def factory_type_def)
qed (simp add: abs_catalog_def)

lemma abs_catalog_None:
  "abs_catalog w p k = None \<longleftrightarrow> entries w p k = None"
  by (simp add: abs_catalog_def)

subsection \<open>Refinement\<close>

text \<open>
  C13. Registration implements the abstract update: the target registry's catalog gains
  the key with the registered type, and every other registry's catalog is unchanged.
\<close>

theorem register_refines:
  assumes "RegisterIntoWithKey t r k w = Inr w'"
  shows "abs_catalog w' r = spec_register (abs_catalog w r) k t \<and>
         (\<forall>p. p \<noteq> r \<longrightarrow> abs_catalog w' p = abs_catalog w p)"
  by (auto simp: abs_catalog_def spec_register_def RegisterIntoWithKey_entries [OF assms]
                 fun_eq_iff factory_type_def)

theorem register_refines_witness:
  "\<exists>w'. RegisterIntoWithKey (Basic ''int'') (Addr 0) ''k'' init_world = Inr w' \<and>
     abs_catalog w' (Addr 0) = spec_register (abs_catalog init_world (Addr 0)) ''k'' (Basic ''int'') \<and>
     abs_catalog w' (Addr 1) = abs_catalog init_world (Addr 1)"
proof -
  obtain w' where reg: "RegisterIntoWithKey (Basic ''int'') (Addr 0) ''k'' init_world = Inr w'"
    by (simp add: RegisterIntoWithKey_def registry_simps)
  from reg register_refines [OF reg] show ?thesis by auto
qed

lemma resolve_entry_concrete:
  assumes "entries w r k = Some (Hydrator d)" and "\<not> is_interface d" and "r \<noteq> Nil"
  shows "map_sum abs_resolve_error id (ResolveFromWithKey t r k w) =
           (if viewable d t then Inr (spec_value d t) else Inl TypeMismatch)"
  using assms
  by (auto simp: ResolveFromWithKey_entries type_assert_Hydrator viewable_def spec_value_def
                 zero_value_def)

lemma resolve_refines_core:
  assumes "r \<noteq> Nil" and "concrete_catalog (abs_catalog w r)"
  shows "map_sum abs_resolve_error id (ResolveFromWithKey t r k w) = spec_resolve (abs_catalog w r) k t"
proof (cases "entries w r k")
  case None
  then have "abs_catalog w r k = None" by (simp add: abs_catalog_None)
  with None assms(1) show ?thesis
    by (simp add: ResolveFromWithKey_entries spec_resolve_def)
next
  case (Some f)
  then obtain d where e: "entries w r k = Some (Hydrator d)" by (cases f) auto
  then have c: "abs_catalog w r k = Some d" by (simp add: abs_catalog_Some)
  with assms(2) have "\<not> is_interface d" by (auto simp: concrete_catalog_def)
  with e assms(1) c show ?thesis by (simp add: resolve_entry_concrete spec_resolve_def)
qed

text \<open>
  C12. Resolution implements the abstract resolution, with panics read as the abstract
  errors. This needs every type in the catalog to be a non-interface type.
\<close>

theorem resolve_refines:
  assumes "r \<noteq> Nil" and "concrete_catalog (abs_catalog w r)"
  shows "map_sum abs_resolve_error id (ResolveFromWithKey t r k w) = spec_resolve (abs_catalog w r) k t"
  using assms by (rule resolve_refines_core)

theorem resolve_refines_witness:
  "\<exists>w'. RegisterIntoWithKey (Basic ''int'') (Addr 0) ''k'' init_world = Inr w' \<and>
     Addr 0 \<noteq> Nil \<and> concrete_catalog (abs_catalog w' (Addr 0)) \<and>
     map_sum abs_resolve_error id (ResolveFromWithKey (Basic ''int'') (Addr 0) ''k'' w') =
       spec_resolve (abs_catalog w' (Addr 0)) ''k'' (Basic ''int'')"
proof -
  obtain w' where reg: "RegisterIntoWithKey (Basic ''int'') (Addr 0) ''k'' init_world = Inr w'"
    by (simp add: RegisterIntoWithKey_def registry_simps)
  have "entries w' (Addr 0) = [''k'' \<mapsto> Hydrator (Basic ''int'')]"
    using RegisterIntoWithKey_entries [OF reg, of "Addr 0"] by (simp add: registry_simps)
  then have "abs_catalog w' (Addr 0) = [''k'' \<mapsto> Basic ''int'']"
    by (simp add: abs_catalog_def factory_type_def fun_eq_iff)
  then have c: "concrete_catalog (abs_catalog w' (Addr 0))" by (simp add: concrete_catalog_def)
  have n: "Addr 0 \<noteq> Nil" by simp
  from reg c resolve_refines [OF n c] show ?thesis by auto
qed

end
