(* ===== verification/Client.thy ===== *)
theory Client
  imports RegistryAbs
begin

text \<open>
  The package as a client program sees it. A client makes a sequence of calls to the
  exported API of \<open>src/Registry.go\<close>, and it may also build a registry with the literal
  \<open>&hydration.Registry{}\<close>. \<open>exec_call\<close> runs one call on the state. A panic ends the
  program. The reachable states are those that some sequence of calls can produce from
  package initialisation, and invariants over them are proved by rule induction.
\<close>

datatype api_call =
    CallNewRegistry
  | CallZeroRegistry
  | CallRegister gotype
  | CallRegisterWithKey gotype key
  | CallRegisterInto gotype ptr
  | CallRegisterIntoWithKey gotype ptr key
  | CallResolve gotype
  | CallResolveWithKey gotype key
  | CallResolveFrom gotype ptr
  | CallResolveFromWithKey gotype ptr key
  | CallKnows gotype
  | CallKnowsTypeKey key
  | CallKnowsIn gotype ptr
  | CallKnowsTypeKeyIn ptr key
  | CallDerivedTypeKey gotype
  | CallHydrate gotype

datatype api_result = RPtr ptr | RUnit | RValue goval | RBool bool | RKey key

text \<open>\<open>&Registry{}\<close>: a fresh registry whose map is nil.\<close>

definition alloc_zero :: "world \<Rightarrow> ptr \<times> world" where
  "alloc_zero w =
     (Addr (next_addr w),
      w\<lparr>heap := (heap w)(next_addr w := zero_Registry), next_addr := Suc (next_addr w)\<rparr>)"

definition mutation :: "(world \<Rightarrow> goerror + world) \<Rightarrow> world \<Rightarrow> goerror + api_result \<times> world" where
  "mutation f w = sum_bind (f w) (\<lambda>w'. Inr (RUnit, w'))"

definition query :: "(world \<Rightarrow> goerror + 'a) \<Rightarrow> ('a \<Rightarrow> api_result) \<Rightarrow> world \<Rightarrow> goerror + api_result \<times> world" where
  "query f res w = sum_bind (f w) (\<lambda>x. Inr (res x, w))"

fun exec_call :: "api_call \<Rightarrow> world \<Rightarrow> goerror + api_result \<times> world" where
  "exec_call CallNewRegistry w = (let (p, w') = NewRegistry w in Inr (RPtr p, w'))"
| "exec_call CallZeroRegistry w = (let (p, w') = alloc_zero w in Inr (RPtr p, w'))"
| "exec_call (CallRegister t) w = mutation (Register t) w"
| "exec_call (CallRegisterWithKey t k) w = mutation (RegisterWithKey t k) w"
| "exec_call (CallRegisterInto t r) w = mutation (RegisterInto t r) w"
| "exec_call (CallRegisterIntoWithKey t r k) w = mutation (RegisterIntoWithKey t r k) w"
| "exec_call (CallResolve t) w = query (Resolve t) RValue w"
| "exec_call (CallResolveWithKey t k) w = query (ResolveWithKey t k) RValue w"
| "exec_call (CallResolveFrom t r) w = query (ResolveFrom t r) RValue w"
| "exec_call (CallResolveFromWithKey t r k) w = query (ResolveFromWithKey t r k) RValue w"
| "exec_call (CallKnows t) w = query (Knows t) RBool w"
| "exec_call (CallKnowsTypeKey k) w = query (KnowsTypeKey k) RBool w"
| "exec_call (CallKnowsIn t r) w = query (KnowsIn t r) RBool w"
| "exec_call (CallKnowsTypeKeyIn r k) w = query (KnowsTypeKeyIn r k) RBool w"
| "exec_call (CallDerivedTypeKey t) w = Inr (RKey (DerivedTypeKey t), w)"
| "exec_call (CallHydrate t) w = Inr (RValue (Hydrate t), w)"

text \<open>The type a call registers, if it is a registration.\<close>

fun registered_type :: "api_call \<Rightarrow> gotype option" where
  "registered_type (CallRegister t) = Some t"
| "registered_type (CallRegisterWithKey t k) = Some t"
| "registered_type (CallRegisterInto t r) = Some t"
| "registered_type (CallRegisterIntoWithKey t r k) = Some t"
| "registered_type c = None"

definition concrete_call :: "api_call \<Rightarrow> bool" where
  "concrete_call c \<longleftrightarrow> (case registered_type c of None \<Rightarrow> True | Some t \<Rightarrow> \<not> is_interface t)"

text \<open>
  The states reachable from package initialisation by calls that satisfy \<open>P\<close>; with
  \<open>P\<close> always true, by any client at all.
\<close>

inductive reachable_by :: "(api_call \<Rightarrow> bool) \<Rightarrow> world \<Rightarrow> bool" for P where
  init: "reachable_by P init_world"
| step: "reachable_by P w \<Longrightarrow> P c \<Longrightarrow> exec_call c w = Inr (res, w') \<Longrightarrow> reachable_by P w'"

abbreviation reachable :: "world \<Rightarrow> bool" where
  "reachable \<equiv> reachable_by (\<lambda>c. True)"

text \<open>A client program: calls in order, stopping at the first panic.\<close>

fun run_calls :: "api_call list \<Rightarrow> world \<Rightarrow> goerror + api_result list \<times> world" where
  "run_calls [] w = Inr ([], w)"
| "run_calls (c # cs) w =
     sum_bind (exec_call c w) (\<lambda>(r, w'). sum_bind (run_calls cs w') (\<lambda>(rs, w''). Inr (r # rs, w'')))"

subsection \<open>Effect of one call\<close>

lemma mutation_Inr [simp]: "mutation f w = Inr (res, w') \<longleftrightarrow> f w = Inr w' \<and> res = RUnit"
  by (auto simp: mutation_def sum_bind_eq_Inr)

lemma query_Inr [simp]: "query f g w = Inr (res, w') \<longleftrightarrow> (\<exists>x. f w = Inr x \<and> res = g x) \<and> w' = w"
  by (auto simp: query_def sum_bind_eq_Inr)

lemma wf_world_fresh_entries:
  "wf_world w \<Longrightarrow> entries w (Addr (next_addr w)) = Map.empty"
  by (simp add: wf_world_def registry_simps zero_Registry_def)

lemma NewRegistry_entries_wf:
  "wf_world w \<Longrightarrow> entries (snd (NewRegistry w)) p = entries w p"
proof -
  assume wf: "wf_world w"
  have "fst (NewRegistry w) = Addr (next_addr w)" by (simp add: NewRegistry_def)
  with wf_world_fresh_entries [OF wf] show ?thesis by (simp add: NewRegistry_entries)
qed

lemma alloc_zero_entries:
  "wf_world w \<Longrightarrow> entries (snd (alloc_zero w)) p = entries w p"
  by (cases p) (auto simp: alloc_zero_def registry_simps wf_world_def zero_Registry_def)

lemma register_shapes_eq [registry_simps]:
  "RegisterWithKey t k w = RegisterIntoWithKey t (DefaultRegistry w) k w"
  "RegisterInto t r w = RegisterIntoWithKey t r (DerivedTypeKey t) w"
  "Register t w = RegisterIntoWithKey t (DefaultRegistry w) (DerivedTypeKey t) w"
  by (simp_all add: shape_defs)

lemma registration_calls:
  "registered_type c = Some t \<Longrightarrow> exec_call c w = Inr (res, w') \<Longrightarrow>
     \<exists>r k. RegisterIntoWithKey t r k w = Inr w'"
  by (cases c) (auto simp: register_shapes_eq)

lemma non_registration_calls:
  assumes "registered_type c = None" and "exec_call c w = Inr (res, w')"
  shows "w' = w \<or> w' = snd (NewRegistry w) \<or> w' = snd (alloc_zero w)"
  using assms by (cases c) (auto split: prod.splits)

text \<open>One call changes an entry only by storing the factory of the type it registers.\<close>

lemma exec_call_entries:
  assumes "wf_world w" and "exec_call c w = Inr (res, w')"
  shows "entries w' p k = entries w p k \<or>
         (\<exists>t. registered_type c = Some t \<and> entries w' p k = Some (Hydrator t))"
proof (cases "registered_type c")
  case None
  from non_registration_calls [OF None assms(2)] assms(1) show ?thesis
    by (auto simp: NewRegistry_entries_wf alloc_zero_entries)
next
  case (Some t)
  from registration_calls [OF Some assms(2)] obtain r k' where "RegisterIntoWithKey t r k' w = Inr w'"
    by blast
  with Some show ?thesis by (auto simp: RegisterIntoWithKey_entries)
qed

lemma RegisterIntoWithKey_wf:
  assumes "wf_world w" and "RegisterIntoWithKey t r k w = Inr w'"
  shows "wf_world w'"
proof -
  from assms(2) obtain a m where r: "r = Addr a" and m: "typeMapping (heap w a) = Some m"
    and w': "w' = w\<lparr>heap := (heap w)(a := (heap w a)\<lparr>typeMapping := Some (m(k \<mapsto> Hydrator t))\<rparr>)\<rparr>"
    by (auto simp: RegisterIntoWithKey_Inr)
  have "a < next_addr w"
  proof (rule ccontr)
    assume "\<not> a < next_addr w"
    with assms(1) have "heap w a = zero_Registry" by (simp add: wf_world_def)
    with m show False by (simp add: zero_Registry_def)
  qed
  have "live w' (DefaultRegistry w')"
    using assms(1) by (simp add: wf_world_def RegisterIntoWithKey_live [OF assms(2)]
                                 RegisterIntoWithKey_fields [OF assms(2)])
  moreover have "\<forall>b. next_addr w' \<le> b \<longrightarrow> heap w' b = zero_Registry"
    using \<open>a < next_addr w\<close> assms(1) w' by (auto simp: wf_world_def)
  ultimately show ?thesis by (simp add: wf_world_def)
qed

lemma exec_call_wf:
  assumes "wf_world w" and "exec_call c w = Inr (res, w')"
  shows "wf_world w'"
proof (cases "registered_type c")
  case None
  from non_registration_calls [OF None assms(2)] assms(1) show ?thesis
    by (auto simp: wf_world_def NewRegistry_live alloc_zero_def NewRegistry_def live_def
             split: ptr.splits)
next
  case (Some t)
  from registration_calls [OF Some assms(2)] obtain r k where "RegisterIntoWithKey t r k w = Inr w'"
    by blast
  with assms(1) show ?thesis by (rule RegisterIntoWithKey_wf)
qed

lemma init_world_wf: "wf_world init_world"
  by (auto simp: wf_world_def live_def registry_simps)

lemma reachable_by_wf: "reachable_by P w \<Longrightarrow> wf_world w"
proof (induction rule: reachable_by.induct)
  case init
  show ?case by (rule init_world_wf)
next
  case (step w c res w')
  then show ?case by (blast intro: exec_call_wf)
qed

lemma reachable_default_live: "reachable_by P w \<Longrightarrow> live w (DefaultRegistry w)"
  using reachable_by_wf by (simp add: wf_world_def)

lemma init_world_entries: "entries init_world p = Map.empty"
proof (cases p)
  case (Addr a)
  then show ?thesis by (cases "a = 0") (simp_all add: registry_simps zero_Registry_def)
qed (simp add: registry_simps)

lemma reachable_concrete_catalog:
  "reachable_by concrete_call w \<Longrightarrow> concrete_catalog (abs_catalog w p)"
proof (induction rule: reachable_by.induct)
  case init
  show ?case by (simp add: concrete_catalog_def abs_catalog_def init_world_entries)
next
  case (step w c res w')
  have wf: "wf_world w" using step.hyps(1) by (rule reachable_by_wf)
  show ?case unfolding concrete_catalog_def
  proof (intro allI impI)
    fix k d
    assume "abs_catalog w' p k = Some d"
    then have e: "entries w' p k = Some (Hydrator d)" by (simp add: abs_catalog_Some)
    from exec_call_entries [OF wf step.hyps(3), of p k] e
    consider "entries w p k = Some (Hydrator d)" | "registered_type c = Some d" by auto
    then show "\<not> is_interface d"
    proof cases
      case 1
      with step.IH show ?thesis by (auto simp: concrete_catalog_def abs_catalog_Some)
    next
      case 2
      with step.hyps(2) show ?thesis by (simp add: concrete_call_def)
    qed
  qed
qed

subsection \<open>Properties of client programs\<close>

text \<open>
  C14. In every state a client can reach, the calls that use the default registry never
  panic when they register or check: \<open>Register\<close>, \<open>RegisterWithKey\<close>, \<open>Knows\<close> and
  \<open>KnowsTypeKey\<close> always return. The spec's claim that registration and existence checks
  are total holds for the default registry.
\<close>

theorem default_calls_never_panic:
  assumes "reachable w"
  shows "is_ok (Register t w) \<and> is_ok (RegisterWithKey t k w) \<and> is_ok (Knows t w) \<and>
         is_ok (KnowsTypeKey k w)"
proof -
  from assms have l: "live w (DefaultRegistry w)" by (rule reachable_default_live)
  then have "DefaultRegistry w \<noteq> Nil" by (auto simp: live_def)
  with l show ?thesis
    using RegisterIntoWithKey_live_ok [OF l]
    by (auto simp: shape_defs KnowsTypeKeyIn_entries is_ok_def)
qed

theorem default_calls_never_panic_witness:
  "reachable init_world \<and>
   is_ok (Register (Basic ''int'') init_world) \<and> is_ok (RegisterWithKey (Basic ''int'') ''k'' init_world) \<and>
   is_ok (Knows (Basic ''int'') init_world) \<and> is_ok (KnowsTypeKey ''k'' init_world)"
  using default_calls_never_panic [OF reachable_by.init] reachable_by.init by blast

text \<open>
  C15. Isolation between registries (spec, section 8): in a reachable state, a registry
  from \<open>NewRegistry\<close> is distinct from the default one. Registering \<open>T\<close> into it makes
  \<open>KnowsIn[T]\<close> true there and leaves \<open>Knows[U]\<close> on the default registry as it was,
  for every \<open>U\<close>.
\<close>

theorem fresh_registry_isolated:
  assumes "reachable w" and "NewRegistry w = (p, w1)" and "RegisterInto t p w1 = Inr w2"
  shows "p \<noteq> DefaultRegistry w \<and> KnowsIn t p w2 = Inr True \<and> Knows u w2 = Knows u w"
proof -
  have wf: "wf_world w" using assms(1) by (rule reachable_by_wf)
  then have l: "live w (DefaultRegistry w)" by (simp add: wf_world_def)
  have p: "p = Addr (next_addr w)" and w1: "w1 = snd (NewRegistry w)"
    using assms(2) by (simp_all add: NewRegistry_def prod_eq_iff)
  have ne: "p \<noteq> DefaultRegistry w"
    using l p by (auto simp: live_def split: ptr.splits)
  have reg: "RegisterIntoWithKey t p (DerivedTypeKey t) w1 = Inr w2"
    using assms(3) by (simp add: register_shapes_eq)
  have d: "DefaultRegistry w2 = DefaultRegistry w" "DefaultRegistry w \<noteq> Nil"
    using RegisterIntoWithKey_fields(2) [OF reg] w1 l by (auto simp: live_def)
  have "entries w2 (DefaultRegistry w) = entries w (DefaultRegistry w)"
    using RegisterIntoWithKey_entries [OF reg] ne w1 NewRegistry_entries_wf [OF wf]
    by (simp add: fun_eq_iff)
  moreover have "entries w2 p (DerivedTypeKey t) = Some (Hydrator t)"
    using RegisterIntoWithKey_entries [OF reg] by simp
  ultimately show ?thesis
    using ne d p by (simp add: shape_defs KnowsTypeKeyIn_entries)
qed

theorem fresh_registry_isolated_witness:
  "\<exists>w2. reachable init_world \<and> NewRegistry init_world = (Addr 1, snd (NewRegistry init_world)) \<and>
     RegisterInto (Basic ''int'') (Addr 1) (snd (NewRegistry init_world)) = Inr w2 \<and>
     Knows (Basic ''bool'') w2 = Knows (Basic ''bool'') init_world"
proof -
  have n: "NewRegistry init_world = (Addr 1, snd (NewRegistry init_world))"
    by (simp add: NewRegistry_def registry_simps)
  obtain w2 where r: "RegisterInto (Basic ''int'') (Addr 1) (snd (NewRegistry init_world)) = Inr w2"
    by (simp add: register_shapes_eq RegisterIntoWithKey_def NewRegistry_def registry_simps)
  from fresh_registry_isolated [OF reachable_by.init n r] n r reachable_by.init show ?thesis by blast
qed

subsection \<open>Allocation\<close>

lemma exec_call_next_addr:
  assumes "exec_call c w = Inr (r, w')"
  shows "next_addr w' = (if c = CallNewRegistry \<or> c = CallZeroRegistry then Suc (next_addr w) else next_addr w)"
  using assms
  by (cases c)
     (auto simp: NewRegistry_def alloc_zero_def register_shapes_eq RegisterIntoWithKey_Inr
           split: prod.splits)

lemma run_calls_Cons_Inr:
  "run_calls (c # cs) w = Inr (rs, w') \<Longrightarrow>
     \<exists>r w1 rs'. exec_call c w = Inr (r, w1) \<and> run_calls cs w1 = Inr (rs', w') \<and> rs = r # rs'"
  by (auto simp: sum_bind_eq_Inr split: prod.splits)

end
