(* ===== verification/Concurrency.thy ===== *)
theory Concurrency
  imports Client "HOL-Library.Multiset"
begin

text \<open>
  Goroutines sharing registries. \<open>src/Registry.go\<close> has no synchronisation. Spec section 5
  leaves locking to the caller: one lock around all registry access, or registration
  confined to an initialisation phase before concurrent resolution. Under such a lock
  every API call runs atomically, and an execution of several goroutines is a schedule:
  the list of their calls in the order they took the lock, each tagged with its
  goroutine. The scheduler runs the schedule as one program (\<open>run_sched\<close>). The model
  does not cover unsynchronised overlapping calls, a data race that the Go runtime may
  report as a fatal "concurrent map writes".
\<close>

type_synonym tid = nat
type_synonym schedule = "(tid \<times> api_call) list"

definition run_sched :: "schedule \<Rightarrow> world \<Rightarrow> goerror + (tid \<times> api_result) list \<times> world" where
  "run_sched s w = map_sum id (\<lambda>(rs, w'). (zip (map fst s) rs, w')) (run_calls (map snd s) w)"

text \<open>
  The registry and key a registration writes, given the value \<open>d\<close> of
  \<open>DefaultRegistry\<close>: the four shapes of \<open>Register\<close> fill in \<open>d\<close> and the derived key.
\<close>

fun reg_target :: "ptr \<Rightarrow> api_call \<Rightarrow> (ptr \<times> key) option" where
  "reg_target d (CallRegister t) = Some (d, DerivedTypeKey t)"
| "reg_target d (CallRegisterWithKey t k) = Some (d, k)"
| "reg_target d (CallRegisterInto t r) = Some (r, DerivedTypeKey t)"
| "reg_target d (CallRegisterIntoWithKey t r k) = Some (r, k)"
| "reg_target d c = None"

text \<open>The type of the last registration of a program into registry \<open>p\<close> under key \<open>k\<close>.\<close>

definition last_write :: "ptr \<Rightarrow> api_call list \<Rightarrow> ptr \<Rightarrow> key \<Rightarrow> gotype option" where
  "last_write d cs p k =
     (case filter (\<lambda>c. reg_target d c = Some (p, k)) cs of
        [] \<Rightarrow> None
      | xs \<Rightarrow> registered_type (last xs))"

subsection \<open>Programs and schedules\<close>

lemma exec_call_DefaultRegistry:
  "exec_call c w = Inr (r, w') \<Longrightarrow> DefaultRegistry w' = DefaultRegistry w"
  by (cases c) (auto simp: NewRegistry_def alloc_zero_def register_shapes_eq RegisterIntoWithKey_Inr
                       split: prod.splits)

lemma run_sched_Inr:
  "run_sched s w = Inr (trs, w') \<longleftrightarrow>
     (\<exists>rs. run_calls (map snd s) w = Inr (rs, w') \<and> trs = zip (map fst s) rs)"
  by (cases "run_calls (map snd s) w") (auto simp: run_sched_def)

subsection \<open>Writers\<close>

lemma reg_target_registered:
  "reg_target d c = Some pk \<Longrightarrow> \<exists>t. registered_type c = Some t"
  by (cases c) simp_all

lemma reg_target_None:
  "registered_type c = None \<Longrightarrow> reg_target d c = None"
  by (cases c) simp_all

lemma exec_call_entries_target:
  assumes "wf_world w" and "exec_call c w = Inr (r, w')"
  shows "entries w' p k =
           (if reg_target (DefaultRegistry w) c = Some (p, k) then map_option Hydrator (registered_type c)
            else entries w p k)"
proof (cases "registered_type c")
  case None
  have "w' = w \<or> w' = snd (NewRegistry w) \<or> w' = snd (alloc_zero w)"
    using None assms(2) by (rule non_registration_calls)
  with assms(1) None show ?thesis
    by (auto simp: reg_target_None NewRegistry_entries_wf alloc_zero_entries)
next
  case (Some t)
  with assms(2) show ?thesis
    by (cases c) (auto simp: register_shapes_eq RegisterIntoWithKey_entries)
qed

lemma last_write_Nil [simp]: "last_write d [] p k = None"
  by (simp add: last_write_def)

lemma last_write_filter_Some:
  assumes "filter (\<lambda>c. reg_target d c = Some (p, k)) cs = x # xs"
  shows "\<exists>t. last_write d cs p k = Some t"
proof -
  have "last (x # xs) \<in> set (filter (\<lambda>c. reg_target d c = Some (p, k)) cs)"
    using assms by simp
  then have "reg_target d (last (x # xs)) = Some (p, k)" by simp
  then show ?thesis using assms by (auto simp: last_write_def dest: reg_target_registered)
qed

lemma last_write_Cons:
  "last_write d (c # cs) p k =
     (case last_write d cs p k of
        None \<Rightarrow> (if reg_target d c = Some (p, k) then registered_type c else None)
      | Some t \<Rightarrow> Some t)"
proof (cases "filter (\<lambda>c. reg_target d c = Some (p, k)) cs")
  case Nil
  then show ?thesis by (simp add: last_write_def)
next
  case (Cons x xs)
  with last_write_filter_Some obtain t where "last_write d cs p k = Some t" by blast
  with Cons show ?thesis by (simp add: last_write_def)
qed

lemma run_calls_last_write_core:
  "wf_world w \<Longrightarrow> run_calls cs w = Inr (rs, w') \<Longrightarrow>
     entries w' p k =
       (case last_write (DefaultRegistry w) cs p k of
          None \<Rightarrow> entries w p k
        | Some t \<Rightarrow> Some (Hydrator t))"
proof (induction cs arbitrary: w rs)
  case Nil
  then show ?case by simp
next
  case (Cons c cs)
  from run_calls_Cons_Inr [OF Cons.prems(2)] obtain r w1 rs'
    where e: "exec_call c w = Inr (r, w1)" and rest: "run_calls cs w1 = Inr (rs', w')" by blast
  have wf1: "wf_world w1" by (rule exec_call_wf [OF Cons.prems(1) e])
  have d: "DefaultRegistry w1 = DefaultRegistry w" by (rule exec_call_DefaultRegistry [OF e])
  have ih: "entries w' p k =
              (case last_write (DefaultRegistry w) cs p k of
                 None \<Rightarrow> entries w1 p k | Some t \<Rightarrow> Some (Hydrator t))"
    using Cons.IH [OF wf1 rest] d by simp
  have one: "entries w1 p k =
               (if reg_target (DefaultRegistry w) c = Some (p, k)
                then map_option Hydrator (registered_type c) else entries w p k)"
    by (rule exec_call_entries_target [OF Cons.prems(1) e])
  show ?case
  proof (cases "last_write (DefaultRegistry w) cs p k")
    case None
    with ih one show ?thesis
      by (auto simp: last_write_Cons dest: reg_target_registered)
  next
    case (Some t)
    with ih show ?thesis by (simp add: last_write_Cons)
  qed
qed

lemma filter_target_le1:
  "distinct (List.map_filter (reg_target d) cs) \<Longrightarrow>
     length (filter (\<lambda>c. reg_target d c = Some pk) cs) \<le> 1"
proof (induction cs)
  case Nil
  then show ?case by simp
next
  case (Cons c cs)
  show ?case
  proof (cases "reg_target d c")
    case None
    with Cons show ?thesis by (simp add: List.map_filter_simps)
  next
    case (Some y)
    with Cons.prems have y: "y \<notin> set (List.map_filter (reg_target d) cs)"
      and dcs: "distinct (List.map_filter (reg_target d) cs)" by (simp_all add: List.map_filter_simps)
    show ?thesis
    proof (cases "y = pk")
      case True
      with y have "filter (\<lambda>c. reg_target d c = Some pk) cs = []"
        by (force simp: List.map_filter_def filter_empty_conv)
      with Some True show ?thesis by simp
    next
      case False
      with Some Cons.IH [OF dcs] show ?thesis by simp
    qed
  qed
qed

lemma mset_le1_eq:
  assumes "mset xs = mset ys" and "length xs \<le> 1"
  shows "xs = ys"
proof -
  have "length ys = length xs" using mset_eq_length [OF assms(1)] by simp
  with assms show ?thesis by (cases xs; cases ys) auto
qed

lemma last_write_perm:
  assumes "mset cs1 = mset cs2" and "distinct (List.map_filter (reg_target d) cs1)"
  shows "last_write d cs1 p k = last_write d cs2 p k"
proof -
  let ?P = "\<lambda>c. reg_target d c = Some (p, k)"
  have "mset (filter ?P cs1) = mset (filter ?P cs2)" using assms(1) by simp
  moreover have "length (filter ?P cs1) \<le> 1" by (rule filter_target_le1 [OF assms(2)])
  ultimately have "filter ?P cs1 = filter ?P cs2" by (rule mset_le1_eq)
  then show ?thesis by (simp add: last_write_def)
qed

subsection \<open>Properties of schedules\<close>

text \<open>
  C18. Under a lock, concurrent registration is last write wins in lock order: after a
  schedule run from a reachable state, each registry holds under each key the type of the
  last registration into it in the schedule, and what it held before if there was none.
\<close>

theorem schedule_last_write_wins:
  assumes "reachable w" and "run_sched s w = Inr (trs, w')"
  shows "entries w' p k =
           (case last_write (DefaultRegistry w) (map snd s) p k of
              None \<Rightarrow> entries w p k
            | Some t \<Rightarrow> Some (Hydrator t))"
proof -
  from assms(2) obtain rs where r: "run_calls (map snd s) w = Inr (rs, w')" by (auto simp: run_sched_Inr)
  show ?thesis by (rule run_calls_last_write_core [OF reachable_by_wf [OF assms(1)] r])
qed

theorem schedule_last_write_wins_witness:
  "reachable init_world \<and>
   (\<exists>trs w'. run_sched [(1::nat, CallRegisterWithKey (Basic ''int'') ''k''),
                          (2, CallRegisterWithKey (Basic ''string'') ''k'')] init_world = Inr (trs, w') \<and>
      entries w' (Addr 0) ''k'' = Some (Hydrator (Basic ''string'')))"
proof -
  let ?s = "[(1::nat, CallRegisterWithKey (Basic ''int'') ''k''), (2, CallRegisterWithKey (Basic ''string'') ''k'')]"
  obtain trs w' where r: "run_sched ?s init_world = Inr (trs, w')"
    by (simp add: run_sched_def mutation_def register_shapes_eq RegisterIntoWithKey_def registry_simps)
  from schedule_last_write_wins [OF reachable_by.init r, of "Addr 0" "''k''"]
  have "entries w' (Addr 0) ''k'' = Some (Hydrator (Basic ''string''))"
    by (simp add: last_write_def registry_simps)
  with r reachable_by.init show ?thesis by blast
qed

text \<open>
  C19. Registrations into distinct registry and key pairs do not race: two schedules of the
  same tagged calls, in any order, that both run from a reachable state leave every
  registry with the same entries, provided no two registrations of the schedule write
  the same registry and key.
\<close>

theorem schedule_independent:
  assumes "reachable w" and "run_sched s1 w = Inr (trs1, w1)" and "run_sched s2 w = Inr (trs2, w2)"
    and "mset s1 = mset s2" and "distinct (List.map_filter (reg_target (DefaultRegistry w)) (map snd s1))"
  shows "entries w1 = entries w2"
proof -
  have wf: "wf_world w" by (rule reachable_by_wf [OF assms(1)])
  from assms(2) obtain rs1 where r1: "run_calls (map snd s1) w = Inr (rs1, w1)" by (auto simp: run_sched_Inr)
  from assms(3) obtain rs2 where r2: "run_calls (map snd s2) w = Inr (rs2, w2)" by (auto simp: run_sched_Inr)
  have m: "mset (map snd s1) = mset (map snd s2)" using assms(4) by (metis mset_map)
  show ?thesis
  proof (rule ext)+
    fix p k
    show "entries w1 p k = entries w2 p k"
      using run_calls_last_write_core [OF wf r1, of p k] run_calls_last_write_core [OF wf r2, of p k]
            last_write_perm [OF m assms(5), of p k] by simp
  qed
qed

theorem schedule_independent_witness:
  "reachable init_world \<and>
   mset [(1::nat, CallRegisterWithKey (Basic ''int'') ''a''), (2, CallRegisterWithKey (Basic ''string'') ''b'')] =
     mset [(2, CallRegisterWithKey (Basic ''string'') ''b''), (1, CallRegisterWithKey (Basic ''int'') ''a'')] \<and>
   distinct (List.map_filter (reg_target (DefaultRegistry init_world))
     [CallRegisterWithKey (Basic ''int'') ''a'', CallRegisterWithKey (Basic ''string'') ''b'']) \<and>
   (\<exists>trs1 w1 trs2 w2.
      run_sched [(1, CallRegisterWithKey (Basic ''int'') ''a''), (2, CallRegisterWithKey (Basic ''string'') ''b'')]
        init_world = Inr (trs1, w1) \<and>
      run_sched [(2, CallRegisterWithKey (Basic ''string'') ''b''), (1, CallRegisterWithKey (Basic ''int'') ''a'')]
        init_world = Inr (trs2, w2) \<and>
      entries w1 = entries w2)"
proof -
  let ?s1 = "[(1::nat, CallRegisterWithKey (Basic ''int'') ''a''), (2, CallRegisterWithKey (Basic ''string'') ''b'')]"
  let ?s2 = "[(2::nat, CallRegisterWithKey (Basic ''string'') ''b''), (1, CallRegisterWithKey (Basic ''int'') ''a'')]"
  obtain trs1 w1 where r1: "run_sched ?s1 init_world = Inr (trs1, w1)"
    by (simp add: run_sched_def mutation_def register_shapes_eq RegisterIntoWithKey_def registry_simps)
  obtain trs2 w2 where r2: "run_sched ?s2 init_world = Inr (trs2, w2)"
    by (simp add: run_sched_def mutation_def register_shapes_eq RegisterIntoWithKey_def registry_simps)
  have m: "mset ?s1 = mset ?s2" by simp
  have d: "distinct (List.map_filter (reg_target (DefaultRegistry init_world)) (map snd ?s1))"
    by (simp add: List.map_filter_simps)
  from schedule_independent [OF reachable_by.init r1 r2 m d] r1 r2 m d reachable_by.init
  show ?thesis by auto
qed

end
