(* ===== verification/SpecMachine.thy ===== *)
theory SpecMachine
  imports Client
begin

text \<open>
  The contract of spec section 4 as a machine over whole programs. Its state holds the
  catalog of every registry a program created, the default registry, and the allocation
  counter. Each exported call is one step. A step is undefined (\<open>None\<close>) outside the
  contract: a nil or unallocated registry, the literal \<open>&Registry{}\<close>, and the
  registration of an interface type, for which the code breaks the contract: resolution
  of an interface type after its registration panics (C3).
  \<open>abs_state\<close> reads the machine state off the concrete one, and it is a functional
  simulation: every program the machine accepts runs in the code with the same results,
  panics exactly where the machine reports an error, and ends in a state that abstracts
  to the machine's.
\<close>

record astate =
  acat :: "nat \<Rightarrow> catalog option"
  adefault :: ptr
  anext :: nat

definition ainit :: astate where
  "ainit = \<lparr>acat = (\<lambda>n. if n = 0 then Some Map.empty else None), adefault = Addr 0, anext = 1\<rparr>"

definition aregister :: "gotype \<Rightarrow> ptr \<Rightarrow> key \<Rightarrow> astate \<Rightarrow> (spec_error + api_result \<times> astate) option" where
  "aregister t p k a =
     (case p of
        Nil \<Rightarrow> None
      | Addr n \<Rightarrow>
          (case acat a n of
             None \<Rightarrow> None
           | Some c \<Rightarrow>
               if is_interface t then None
               else Some (Inr (RUnit, a\<lparr>acat := (acat a)(n \<mapsto> spec_register c k t)\<rparr>))))"

definition aresolve :: "gotype \<Rightarrow> ptr \<Rightarrow> key \<Rightarrow> astate \<Rightarrow> (spec_error + api_result \<times> astate) option" where
  "aresolve t p k a =
     (case p of
        Nil \<Rightarrow> None
      | Addr n \<Rightarrow>
          (case acat a n of
             None \<Rightarrow> None
           | Some c \<Rightarrow> Some (map_sum id (\<lambda>v. (RValue v, a)) (spec_resolve c k t))))"

definition aknows :: "ptr \<Rightarrow> key \<Rightarrow> astate \<Rightarrow> (spec_error + api_result \<times> astate) option" where
  "aknows p k a =
     (case p of
        Nil \<Rightarrow> None
      | Addr n \<Rightarrow>
          (case acat a n of
             None \<Rightarrow> None
           | Some c \<Rightarrow> Some (Inr (RBool (spec_knows c k), a))))"

fun astep :: "api_call \<Rightarrow> astate \<Rightarrow> (spec_error + api_result \<times> astate) option" where
  "astep CallNewRegistry a =
     Some (Inr (RPtr (Addr (anext a)),
                a\<lparr>acat := (acat a)(anext a \<mapsto> Map.empty), anext := Suc (anext a)\<rparr>))"
| "astep CallZeroRegistry a = None"
| "astep (CallRegister t) a = aregister t (adefault a) (DerivedTypeKey t) a"
| "astep (CallRegisterWithKey t k) a = aregister t (adefault a) k a"
| "astep (CallRegisterInto t r) a = aregister t r (DerivedTypeKey t) a"
| "astep (CallRegisterIntoWithKey t r k) a = aregister t r k a"
| "astep (CallResolve t) a = aresolve t (adefault a) (DerivedTypeKey t) a"
| "astep (CallResolveWithKey t k) a = aresolve t (adefault a) k a"
| "astep (CallResolveFrom t r) a = aresolve t r (DerivedTypeKey t) a"
| "astep (CallResolveFromWithKey t r k) a = aresolve t r k a"
| "astep (CallKnows t) a = aknows (adefault a) (DerivedTypeKey t) a"
| "astep (CallKnowsTypeKey k) a = aknows (adefault a) k a"
| "astep (CallKnowsIn t r) a = aknows r (DerivedTypeKey t) a"
| "astep (CallKnowsTypeKeyIn r k) a = aknows r k a"
| "astep (CallDerivedTypeKey t) a = Some (Inr (RKey (DerivedTypeKey t), a))"
| "astep (CallHydrate t) a = Some (Inr (RValue (Hydrate t), a))"

text \<open>A program on the machine: undefined when a step is, stopped by the first error.\<close>

fun arun :: "api_call list \<Rightarrow> astate \<Rightarrow> (spec_error + api_result list \<times> astate) option" where
  "arun [] a = Some (Inr ([], a))"
| "arun (c # cs) a =
     (case astep c a of
        None \<Rightarrow> None
      | Some (Inl e) \<Rightarrow> Some (Inl e)
      | Some (Inr (r, a')) \<Rightarrow>
          (case arun cs a' of
             None \<Rightarrow> None
           | Some (Inl e) \<Rightarrow> Some (Inl e)
           | Some (Inr (rs, a'')) \<Rightarrow> Some (Inr (r # rs, a''))))"

text \<open>Every catalog of the machine holds non-interface types only.\<close>

definition ainv :: "astate \<Rightarrow> bool" where
  "ainv a \<longleftrightarrow> (\<forall>n c. acat a n = Some c \<longrightarrow> concrete_catalog c)"

definition abs_state :: "world \<Rightarrow> astate" where
  "abs_state w =
     \<lparr>acat = (\<lambda>n. case typeMapping (heap w n) of None \<Rightarrow> None | Some m \<Rightarrow> Some (abs_catalog w (Addr n))),
      adefault = DefaultRegistry w, anext = next_addr w\<rparr>"

text \<open>
  The calls inside the contract: no \<open>&Registry{}\<close> literal and no registration of an
  interface type. \<open>call_ptrs\<close> are the registry pointers a call names explicitly.
\<close>

definition spec_call :: "api_call \<Rightarrow> bool" where
  "spec_call c \<longleftrightarrow> c \<noteq> CallZeroRegistry \<and> concrete_call c"

fun call_ptrs :: "api_call \<Rightarrow> ptr list" where
  "call_ptrs (CallRegisterInto t r) = [r]"
| "call_ptrs (CallRegisterIntoWithKey t r k) = [r]"
| "call_ptrs (CallResolveFrom t r) = [r]"
| "call_ptrs (CallResolveFromWithKey t r k) = [r]"
| "call_ptrs (CallKnowsIn t r) = [r]"
| "call_ptrs (CallKnowsTypeKeyIn r k) = [r]"
| "call_ptrs c = []"

subsection \<open>The abstraction\<close>

lemma abs_state_simps [simp]:
  "adefault (abs_state w) = DefaultRegistry w"
  "anext (abs_state w) = next_addr w"
  "acat (abs_state w) n = Some c \<longleftrightarrow> typeMapping (heap w n) \<noteq> None \<and> c = abs_catalog w (Addr n)"
  "acat (abs_state w) n = None \<longleftrightarrow> typeMapping (heap w n) = None"
  by (auto simp: abs_state_def split: option.splits)

lemma abs_state_init: "abs_state init_world = ainit"
  by (simp add: abs_state_def ainit_def abs_catalog_def init_world_entries fun_eq_iff registry_simps
                init_world_def NewRegistry_def empty_world_def zero_Registry_def)

lemma ainv_init: "ainv ainit"
  by (simp add: ainv_def ainit_def concrete_catalog_def)

lemma abs_state_NewRegistry:
  "abs_state (snd (NewRegistry w)) =
     (abs_state w)\<lparr>acat := (acat (abs_state w))(next_addr w \<mapsto> Map.empty), anext := Suc (next_addr w)\<rparr>"
  by (auto simp: abs_state_def NewRegistry_def abs_catalog_def fun_eq_iff registry_simps
           split: option.splits)

lemma abs_catalog_register:
  assumes "RegisterIntoWithKey t r k w = Inr w'"
  shows "abs_catalog w' p = (if p = r then spec_register (abs_catalog w r) k t else abs_catalog w p)"
  by (simp add: abs_catalog_def RegisterIntoWithKey_entries [OF assms] spec_register_def
                factory_type_def fun_eq_iff)

lemma abs_state_register:
  assumes "RegisterIntoWithKey t (Addr n) k w = Inr w'"
  shows "abs_state w' =
           (abs_state w)\<lparr>acat := (acat (abs_state w))(n \<mapsto> spec_register (abs_catalog w (Addr n)) k t)\<rparr>"
proof -
  from assms obtain m where m: "typeMapping (heap w n) = Some m"
    and w': "w' = w\<lparr>heap := (heap w)(n := (heap w n)\<lparr>typeMapping := Some (m(k \<mapsto> Hydrator t))\<rparr>)\<rparr>"
    by (auto simp: RegisterIntoWithKey_Inr)
  have "acat (abs_state w') x = ((acat (abs_state w))(n \<mapsto> spec_register (abs_catalog w (Addr n)) k t)) x" for x
  proof -
    have h: "typeMapping (heap w' x) = (if x = n then Some (m(k \<mapsto> Hydrator t)) else typeMapping (heap w x))"
      using w' by simp
    show ?thesis using m h abs_catalog_register [OF assms, of "Addr x"]
      by (auto simp: abs_state_def split: option.splits)
  qed
  with RegisterIntoWithKey_fields [OF assms] show ?thesis
    by (intro astate.equality) (simp_all add: fun_eq_iff)
qed

subsection \<open>One call\<close>

lemma map_sum_mutation: "map_sum f g (mutation h w) = map_sum f (\<lambda>w'. g (RUnit, w')) (h w)"
  by (cases "h w") (simp_all add: mutation_def)

lemma map_sum_query: "map_sum f g (query h res w) = map_sum f (\<lambda>x. g (res x, w)) (h w)"
  by (cases "h w") (simp_all add: query_def)

lemma exec_call_NewRegistry:
  "exec_call CallNewRegistry w = Inr (RPtr (Addr (next_addr w)), snd (NewRegistry w))"
  by (simp add: NewRegistry_def)

lemma RegisterIntoWithKey_mapped:
  "typeMapping (heap w n) \<noteq> None \<Longrightarrow> \<exists>w'. RegisterIntoWithKey t (Addr n) k w = Inr w'"
  by (auto simp: RegisterIntoWithKey_def)

lemma register_sim:
  assumes "aregister t p k (abs_state w) = Some ar"
  shows "map_sum abs_resolve_error (\<lambda>w'. (RUnit, abs_state w')) (RegisterIntoWithKey t p k w) = ar"
proof -
  from assms obtain n where p: "p = Addr n" and tm: "typeMapping (heap w n) \<noteq> None"
    and ar: "ar = Inr (RUnit, (abs_state w)\<lparr>acat := (acat (abs_state w))(n \<mapsto> spec_register (abs_catalog w (Addr n)) k t)\<rparr>)"
    by (auto simp: aregister_def split: ptr.splits option.splits if_splits)
  from RegisterIntoWithKey_mapped [OF tm] obtain w' where r: "RegisterIntoWithKey t (Addr n) k w = Inr w'" ..
  show ?thesis using r abs_state_register [OF r] ar p by simp
qed

lemma resolve_sim:
  assumes "ainv (abs_state w)" and "aresolve t p k (abs_state w) = Some ar"
  shows "map_sum abs_resolve_error (\<lambda>v. (RValue v, abs_state w)) (ResolveFromWithKey t p k w) = ar"
proof -
  from assms(2) obtain n where p: "p = Addr n" and tm: "typeMapping (heap w n) \<noteq> None"
    and ar: "ar = map_sum id (\<lambda>v. (RValue v, abs_state w)) (spec_resolve (abs_catalog w (Addr n)) k t)"
    by (auto simp: aresolve_def split: ptr.splits option.splits)
  from assms(1) tm have "concrete_catalog (abs_catalog w (Addr n))" by (auto simp: ainv_def)
  then have "map_sum abs_resolve_error id (ResolveFromWithKey t (Addr n) k w) = spec_resolve (abs_catalog w (Addr n)) k t"
    by (intro resolve_refines_core) simp_all
  with ar have "ar = map_sum id (\<lambda>v. (RValue v, abs_state w))
                       (map_sum abs_resolve_error id (ResolveFromWithKey t (Addr n) k w))" by simp
  with p show ?thesis by (cases "ResolveFromWithKey t (Addr n) k w") simp_all
qed

lemma knows_sim:
  assumes "aknows p k (abs_state w) = Some ar"
  shows "map_sum abs_resolve_error (\<lambda>b. (RBool b, abs_state w)) (KnowsTypeKeyIn p k w) = ar"
  using assms
  by (auto simp: aknows_def KnowsTypeKeyIn_entries spec_knows_def abs_catalog_None
           split: ptr.splits option.splits)

lemma exec_call_sim:
  assumes "ainv (abs_state w)" and "astep c (abs_state w) = Some ar"
  shows "map_sum abs_resolve_error (\<lambda>(r, w'). (r, abs_state w')) (exec_call c w) = ar"
proof (cases "c = CallNewRegistry")
  case True
  with assms(2) show ?thesis
    by (simp add: exec_call_NewRegistry abs_state_NewRegistry del: exec_call.simps)
next
  case False
  with assms show ?thesis
    by (cases c) (auto simp: map_sum_mutation map_sum_query shape_defs
                       dest!: register_sim resolve_sim [OF assms(1)] knows_sim)
qed

lemma map_sum_eq_Inr: "map_sum f g x = Inr y \<longleftrightarrow> (\<exists>v. x = Inr v \<and> y = g v)"
  by (cases x) auto

lemma astep_ainv:
  "ainv a \<Longrightarrow> astep c a = Some (Inr (r, a')) \<Longrightarrow> ainv a'"
  by (cases c)
     (auto simp: ainv_def aregister_def aresolve_def aknows_def concrete_catalog_def spec_register_def
                 map_sum_eq_Inr split: ptr.splits option.splits if_splits)

lemma exec_call_sim_cases:
  assumes "ainv (abs_state w)"
  shows "astep c (abs_state w) = Some (Inl e) \<Longrightarrow> \<exists>e'. exec_call c w = Inl e' \<and> abs_resolve_error e' = e"
    and "astep c (abs_state w) = Some (Inr (r, a')) \<Longrightarrow> \<exists>w'. exec_call c w = Inr (r, w') \<and> abs_state w' = a'"
  using exec_call_sim [OF assms, of c] by (cases "exec_call c w"; auto)+

subsection \<open>Whole programs\<close>

lemma run_calls_sim:
  "ainv (abs_state w) \<Longrightarrow> arun cs (abs_state w) = Some ar \<Longrightarrow>
     map_sum abs_resolve_error (\<lambda>(rs, w'). (rs, abs_state w')) (run_calls cs w) = ar"
proof (induction cs arbitrary: w ar)
  case Nil
  then show ?case by simp
next
  case (Cons c cs)
  show ?case
  proof (cases "astep c (abs_state w)")
    case None
    with Cons.prems(2) show ?thesis by simp
  next
    case (Some sr)
    show ?thesis
    proof (cases sr)
      case (Inl e)
      with Some Cons.prems(2) have ar: "ar = Inl e" by simp
      from exec_call_sim_cases(1) [OF Cons.prems(1)] Some Inl obtain e'
        where "exec_call c w = Inl e'" and "abs_resolve_error e' = e" by blast
      with ar show ?thesis by simp
    next
      case (Inr x)
      then obtain r a' where sr: "sr = Inr (r, a')" by (cases x) auto
      from exec_call_sim_cases(2) [OF Cons.prems(1)] Some sr obtain w'
        where e: "exec_call c w = Inr (r, w')" and a': "abs_state w' = a'" by blast
      have inv: "ainv (abs_state w')" using astep_ainv [OF Cons.prems(1)] Some sr a' by simp
      show ?thesis
      proof (cases "arun cs a'")
        case None
        with Some sr Cons.prems(2) show ?thesis by simp
      next
        case (Some ar')
        with \<open>astep c (abs_state w) = Some sr\<close> sr Cons.prems(2)
        have ar: "ar = map_sum id (\<lambda>(rs, a''). (r # rs, a'')) ar'"
          by (cases ar') (auto split: prod.splits)
        from Cons.IH [OF inv] Some a'
        have "map_sum abs_resolve_error (\<lambda>(rs, w''). (rs, abs_state w'')) (run_calls cs w') = ar'" by simp
        with e ar show ?thesis by (cases "run_calls cs w'") (auto split: prod.splits)
      qed
    qed
  qed
qed

subsection \<open>Refinement of the contract\<close>

text \<open>
  C21. The code refines the contract machine on whole programs: for every program that
  the machine accepts from package initialisation, the code returns the same results,
  panics exactly where the machine reports an error (an unknown key or a type mismatch),
  and ends in a state whose registries hold the machine's catalogs.
\<close>

theorem programs_refine_spec:
  assumes "arun cs ainit = Some ar"
  shows "map_sum abs_resolve_error (\<lambda>(rs, w'). (rs, abs_state w')) (run_calls cs init_world) = ar"
  using run_calls_sim [of init_world cs ar] abs_state_init ainv_init assms by simp

theorem programs_refine_spec_witness:
  "\<exists>a w'. arun [CallNewRegistry, CallRegisterInto (Basic ''int'') (Addr 1),
                  CallResolveFrom (Basic ''int'') (Addr 1), CallKnows (Basic ''int'')] ainit =
              Some (Inr ([RPtr (Addr 1), RUnit, RValue (Zero (Basic ''int'')), RBool False], a)) \<and>
            run_calls [CallNewRegistry, CallRegisterInto (Basic ''int'') (Addr 1),
                  CallResolveFrom (Basic ''int'') (Addr 1), CallKnows (Basic ''int'')] init_world =
              Inr ([RPtr (Addr 1), RUnit, RValue (Zero (Basic ''int'')), RBool False], w') \<and>
            abs_state w' = a"
proof -
  let ?cs = "[CallNewRegistry, CallRegisterInto (Basic ''int'') (Addr 1),
              CallResolveFrom (Basic ''int'') (Addr 1), CallKnows (Basic ''int'')]"
  let ?rs = "[RPtr (Addr 1), RUnit, RValue (Zero (Basic ''int'')), RBool False]"
  obtain a where A: "arun ?cs ainit = Some (Inr (?rs, a))"
    by (simp add: ainit_def aregister_def aresolve_def aknows_def spec_register_def spec_resolve_def
                  spec_knows_def viewable_def spec_value_def zero_value_def registry_simps)
  from programs_refine_spec [OF A]
  have "map_sum abs_resolve_error (\<lambda>(rs, w'). (rs, abs_state w')) (run_calls ?cs init_world) = Inr (?rs, a)" .
  then obtain w' where "run_calls ?cs init_world = Inr (?rs, w')" and "abs_state w' = a"
    by (cases "run_calls ?cs init_world") auto
  with A show ?thesis by blast
qed

subsection \<open>Programs inside the contract\<close>

lemma reachable_by_mono:
  "reachable_by P w \<Longrightarrow> (\<And>c. P c \<Longrightarrow> Q c) \<Longrightarrow> reachable_by Q w"
  by (induction rule: reachable_by.induct) (auto intro: reachable_by.intros)

text \<open>Without the literal \<open>&Registry{}\<close>, every allocated registry has a map.\<close>

lemma reachable_no_literal_live:
  "reachable_by spec_call w \<Longrightarrow> allocated w p \<Longrightarrow> live w p"
proof (induction arbitrary: p rule: reachable_by.induct)
  case init
  then show ?case by (cases p) (auto simp: allocated_def live_def registry_simps)
next
  case (step w c res w')
  show ?case
  proof (cases "registered_type c")
    case (Some t)
    from registration_calls [OF Some step.hyps(3)] obtain r k where reg: "RegisterIntoWithKey t r k w = Inr w'"
      by blast
    with step show ?thesis
      by (cases p) (auto simp: RegisterIntoWithKey_live allocated_def RegisterIntoWithKey_fields)
  next
    case None
    have "w' = w \<or> w' = snd (NewRegistry w)"
      using None step.hyps(2,3) by (cases c) (auto simp: spec_call_def split: prod.splits)
    then consider "w' = w" | "w' = snd (NewRegistry w)" by blast
    then show ?thesis
    proof cases
      case 1
      with step show ?thesis by simp
    next
      case 2
      show ?thesis
      proof (cases "p = Addr (next_addr w)")
        case True
        with 2 show ?thesis by (simp add: live_def NewRegistry_def)
      next
        case False
        with 2 step.prems have "allocated w p"
          by (cases p) (auto simp: allocated_def NewRegistry_def)
        with step.IH have "live w p" by blast
        with 2 False show ?thesis by (cases p) (auto simp: live_def NewRegistry_def)
      qed
    qed
  qed
qed

lemma reachable_spec_ainv: "reachable_by spec_call w \<Longrightarrow> ainv (abs_state w)"
proof -
  assume r: "reachable_by spec_call w"
  then have "reachable_by concrete_call w" by (rule reachable_by_mono) (simp add: spec_call_def)
  then show ?thesis by (auto simp: ainv_def dest: reachable_concrete_catalog)
qed

lemma acat_mapped:
  "typeMapping (heap w n) = Some m \<Longrightarrow> acat (abs_state w) n = Some (abs_catalog w (Addr n))"
  by (simp add: abs_state_def)

lemma spec_call_accepted:
  assumes "live w (DefaultRegistry w)" and "\<forall>p \<in> set (call_ptrs c). live w p"
    and "spec_call c"
  shows "astep c (abs_state w) \<noteq> None"
  using assms
  by (cases c)
     (auto simp: spec_call_def concrete_call_def aregister_def aresolve_def aknows_def live_def acat_mapped
           split: ptr.splits)

text \<open>
  C22. The contract covers every call of a program that uses neither the literal
  \<open>&Registry{}\<close> nor an interface type: from a state such a program reaches, each such
  call whose registry arguments were allocated is accepted by the contract machine, and
  the code returns the machine's result (its panic the machine's error) and reaches a
  state that abstracts to the machine's next state.
\<close>

theorem spec_calls_refine:
  assumes "reachable_by spec_call w" and "spec_call c" and "\<forall>p \<in> set (call_ptrs c). allocated w p"
  shows "\<exists>ar. astep c (abs_state w) = Some ar \<and>
               map_sum abs_resolve_error (\<lambda>(r, w'). (r, abs_state w')) (exec_call c w) = ar"
proof -
  have inv: "ainv (abs_state w)" by (rule reachable_spec_ainv [OF assms(1)])
  have "live w (DefaultRegistry w)" by (rule reachable_default_live [OF assms(1)])
  moreover have "\<forall>p \<in> set (call_ptrs c). live w p"
    using assms(3) reachable_no_literal_live [OF assms(1)] by blast
  ultimately obtain ar where a: "astep c (abs_state w) = Some ar"
    using spec_call_accepted [OF _ _ assms(2)] by blast
  with exec_call_sim [OF inv a] show ?thesis by blast
qed

theorem spec_calls_refine_witness:
  "\<exists>w1. exec_call CallNewRegistry init_world = Inr (RPtr (Addr 1), w1) \<and> reachable_by spec_call w1 \<and>
     spec_call (CallRegisterInto (Basic ''int'') (Addr 1)) \<and> allocated w1 (Addr 1) \<and>
     (\<exists>ar. astep (CallRegisterInto (Basic ''int'') (Addr 1)) (abs_state w1) = Some ar \<and>
        map_sum abs_resolve_error (\<lambda>(r, w'). (r, abs_state w'))
          (exec_call (CallRegisterInto (Basic ''int'') (Addr 1)) w1) = ar)"
proof -
  obtain w1 where e: "exec_call CallNewRegistry init_world = Inr (RPtr (Addr 1), w1)"
    by (simp add: NewRegistry_def registry_simps)
  have sc: "spec_call CallNewRegistry" by (simp add: spec_call_def concrete_call_def)
  have r: "reachable_by spec_call w1"
    by (rule reachable_by.step [where P = spec_call, OF reachable_by.init sc e])
  have "next_addr w1 = 2" using exec_call_next_addr [OF e] by (simp add: registry_simps)
  then have a: "allocated w1 (Addr 1)" by (simp add: allocated_def registry_simps)
  have c: "spec_call (CallRegisterInto (Basic ''int'') (Addr 1))" by (simp add: spec_call_def concrete_call_def)
  have p: "\<forall>p \<in> set (call_ptrs (CallRegisterInto (Basic ''int'') (Addr 1))). allocated w1 p" using a by simp
  from spec_calls_refine [OF r c p] e r c a show ?thesis by blast
qed

end
