(* ===== verification/Spec2Isabelle.thy ===== *)
theory Spec2Isabelle
  imports RegistryTest Concurrency SpecMachine
begin

text \<open>
  \<^bold>\<open>A verification development of the Go package \<open>hydration\<close> (lukejoshuapark/hydration).\<close>

  \<^bold>\<open>The program.\<close> \<open>src/Registry.go\<close> is a type registry. A \<open>Registry\<close> struct holds a
  map \<open>typeMapping\<close> from a string key to a factory \<open>func() any\<close>. \<open>NewRegistry\<close> makes
  one, and the package variable \<open>DefaultRegistry\<close> holds one made at initialisation.
  \<open>RegisterIntoWithKey[T](r, k)\<close> stores under \<open>k\<close> a closure that returns
  \<open>Hydrate[T]()\<close>, the zero value of \<open>T\<close>. \<open>ResolveFromWithKey[T](r, k)\<close> calls the
  stored closure and asserts its result to \<open>T\<close>. \<open>KnowsTypeKeyIn(r, k)\<close> tests the key.
  \<open>DerivedTypeKey[T]\<close> is \<open>fmt.Sprintf("%v", reflect.TypeOf(Hydrate[T]()))\<close>. Each of
  the three operations has three more shapes that fill in the default registry, the
  derived key, or both. \<open>src/Registry_test.go\<close> runs all 64 combinations of shapes in
  one test.

  \<^bold>\<open>Theories.\<close>
  \<^item> \<open>Prelude\<close>: \<open>sum_bind\<close> for Go's panic propagation (\<open>Inl\<close> is a panic), Go maps that
    may be nil (\<open>gomap\<close>, \<open>map_get\<close>), and the collections \<open>go_simps\<close> and
    \<open>registry_simps\<close>.
  \<^item> \<open>GoTypes\<close>: the Go semantics the package relies on. A type descriptor \<open>gotype\<close>
    names a named type by import path, package name and type name, with its kind and
    methods; channel types carry their direction and function types their parameters,
    results and variadic flag. Zero values (\<open>zero_value\<close>, for \<open>var t T\<close>) and \<open>to_any\<close>
    (conversion to \<open>any\<close>) are defined, with \<open>reflect_TypeOf\<close> and \<open>sprintf_v\<close> (\<open>fmt\<close>'s
    \<open>%v\<close> of a \<open>reflect.Type\<close>, \<open><nil>\<close> for nil). \<open>type_string\<close> is
    \<open>reflect.Type.String\<close>, and \<open>type_assert\<close> is \<open>x.(T)\<close> with method sets
    (\<open>implements\<close>). The lemmas cover the typing of zero values, the soundness of the
    assertion (\<open>type_assert_sound\<close>), and the fact that no well-formed type name is
    \<open><nil>\<close> (\<open>type_string_not_nil\<close>: only a receive-only channel's name starts with
    \<open><\<close>, and it starts with \<open><-\<close>).
  \<^item> \<open>Registry\<close>: every function of \<open>Registry.go\<close> in source order. The state \<open>world\<close>
    is a heap of \<open>Registry\<close> records indexed by address (\<open>*Registry\<close> is \<open>ptr\<close>, with
    \<open>Nil\<close>), an allocation counter, and the variable \<open>DefaultRegistry\<close>. \<open>init_world\<close>
    is the state after package initialisation. A nil map is \<open>None\<close>, as in the zero
    value \<open>Registry{}\<close>. Panics are values of \<open>goerror\<close>: a nil pointer dereference
    (nil registry, or a call of the nil function that a missing key reads), an
    assignment to a nil map, and a failed type assertion. The lemmas: the round trip
    (C1, C2), last write wins (C6), isolation of other registries and keys (C7),
    resolution of an unknown key panics (C8), type safety of resolution (C9), when
    registration panics (C10), that same-named types of different import paths share
    a key and overwrite each other (C11), that no concrete type has the key of the
    interface types (C17), and the commutation of registrations (C16).
  \<^item> \<open>RegistryTest\<close>: \<open>TestHydration\<close>, its \<open>testCase\<close> record, \<open>createTestCase\<close> with the
    source's bit tests, and the \<open>register\<close>, \<open>check\<close> and \<open>resolve\<close> methods. The loop
    is \<open>run_cases\<close> over the shared state, and it stops at an unrecovered panic. The
    lemma: each of the 64 combinations passes from any state with a live default
    registry, and leaves it live (C5).
  \<^item> \<open>RegistryAbs\<close>: the abstract contract of spec section 4. A registry is a
    \<open>catalog\<close> from keys to registered types, with \<open>spec_register\<close>, \<open>spec_knows\<close>
    and \<open>spec_resolve\<close>. The abstraction \<open>abs_catalog\<close> reads the catalog off the heap.
    The lemmas: refinement of registration (C13), and of resolution for catalogs of
    non-interface types (C12).
  \<^item> \<open>Client\<close>: one \<open>api_call\<close> per exported function, plus the literal \<open>&Registry{}\<close>
    (\<open>alloc_zero\<close>). \<open>exec_call\<close> is one call, \<open>run_calls\<close> a program (calls in
    order, stopping at the first panic), and \<open>reachable_by\<close> the inductive set of states
    that programs reach. \<open>wf_world\<close> holds in every reachable state, by rule induction:
    the default registry is live and unallocated cells are untouched. The lemmas:
    default-registry calls never panic (C14), and a new registry is isolated from the
    default (C15).
  \<^item> \<open>Concurrency\<close>: goroutines whose calls a caller-side lock serialises, as spec section 5
    asks. A schedule is a list of calls tagged with their goroutine, run as one program
    (\<open>run_sched\<close>). The lemmas: the entries after a schedule are the last write in lock
    order (\<open>last_write\<close>, C18), and the order does not matter when no two registrations
    write the same registry and key (C19).
  \<^item> \<open>SpecMachine\<close>: the contract of spec section 4 as a machine over whole programs.
    Its state (\<open>astate\<close>) holds a catalog per registry, the default registry and the
    allocation counter; \<open>astep\<close> is one exported call and \<open>arun\<close> a program. A step is
    undefined outside the contract: a nil or unallocated registry, the literal
    \<open>&Registry{}\<close>, the registration of an interface type. \<open>abs_state\<close> reads the
    machine state off the heap, and it is a functional simulation, in the style of a
    refinement mapping: every program the machine accepts runs in the code with the
    machine's results, panics where the machine reports an error, and ends in the
    abstracted state (C21); and from every state reached without the literal and without
    interface registrations, every such call on allocated registries is accepted and
    simulated (C22).
  \<^item> This theory holds the properties that span the components: the round trip of the
    default shapes for every type from any reachable state (C3), the abstract contract
    for every program that registers only non-interface types (C4), that the test suite
    passes in full from any state client code can reach (C20), and that a known key
    stays known after any client program (C23).

  \<^bold>\<open>Findings.\<close> For an interface type \<open>T\<close>, \<open>DerivedTypeKey[T]\<close> is \<open>"<nil>"\<close>
  (\<open>DerivedTypeKey_eq\<close>), not the \<open>"io.Reader"\<close> that its doc comment promises. All
  interface types share that key, and \<open>Resolve[T]\<close> after \<open>Register[T]\<close> panics (C1,
  C3). Keys use the package name, not the import path, so same-named types of two
  modules collide (C11). Registration into a \<open>Registry{}\<close> literal panics (C10). Every
  default shape panics once a client assigns nil to the exported \<open>DefaultRegistry\<close>,
  which nothing in the package prevents. The test suite exercises only the successful
  path (C5, C20). Under the lock the spec recommends, the outcome of registrations
  under one key depends on the lock order (C18).

  \<^bold>\<open>Bounds and fuel.\<close> Every definition is total and structurally recursive, except
  \<open>nat_digits\<close>, whose recursion on \<open>n div 10\<close> is accepted by \<open>fun\<close>. No fuel is
  needed. The test loop runs over the literal list \<open>[0..63]\<close> of the source's
  \<open>1<<6\<close> iterations. Go's \<open>int\<close> index never reaches its width there, so it is
  \<open>int\<close>. The allocation counter is a \<open>nat\<close>: Go's allocator does not wrap.

  \<^bold>\<open>Not modelled.\<close> Unsynchronised access: \<open>src/Registry.go\<close> has no lock, and calls
  that overlap without the caller's lock are a data race on the Go map, which the
  runtime detects only on a best-effort basis ("concurrent map writes"); the model
  runs every call atomically. Object identity of the values resolution returns: every
  value the package makes is a zero value, and values are compared by content. Go types
  beyond those listed: names of generic type instantiations (their type arguments are
  printed with the compiler's qualified names, which the sources do not fix),
  embedded-field method promotion (its depth and ambiguity rules would need the whole
  struct layout) and struct tags (printed quoted, with Go's escapes). The assertion
  library used by the tests, which is external.

  \<^bold>\<open>Plan for later work.\<close> A parser for \<open>type_string\<close> with a round-trip lemma, giving
  injectivity of derived keys on types with distinct package names.
\<close>

subsection \<open>Properties spanning the components\<close>

text \<open>
  C3. Round trip through the default shapes: in every state a client can reach,
  \<open>Register[T]()\<close> returns for every \<open>T\<close>, and \<open>Knows[T]()\<close> then returns true.
  \<open>Resolve[T]()\<close> then returns the zero value of \<open>T\<close> when \<open>T\<close> is not an interface type,
  and panics with a failed assertion of the nil interface when it is.
\<close>

theorem default_roundtrip:
  assumes "reachable w"
  shows "\<exists>w'. Register t w = Inr w' \<and> Knows t w' = Inr True \<and>
           Resolve t w' = (if is_interface t then Inl (TypeAssertionError None t) else Inr (Hydrate t))"
proof -
  from assms(1) have l: "live w (DefaultRegistry w)" by (rule reachable_default_live)
  then obtain w' where reg: "RegisterIntoWithKey t (DefaultRegistry w) (DerivedTypeKey t) w = Inr w'"
    using RegisterIntoWithKey_live_ok by blast
  have d: "DefaultRegistry w' = DefaultRegistry w" by (rule RegisterIntoWithKey_fields(2) [OF reg])
  have n: "DefaultRegistry w \<noteq> Nil" using l by (auto simp: live_def)
  have e: "entries w' (DefaultRegistry w) (DerivedTypeKey t) = Some (Hydrator t)"
    using RegisterIntoWithKey_entries [OF reg] by simp
  have "Knows t w' = Inr True"
    using d n e by (simp add: shape_defs KnowsTypeKeyIn_entries)
  moreover have "Resolve t w' = (if is_interface t then Inl (TypeAssertionError None t) else Inr (Hydrate t))"
    using d n e
    by (simp add: shape_defs ResolveFromWithKey_entries type_assert_Hydrator Hydrate_def zero_value_def)
  ultimately show ?thesis using reg by (simp add: register_shapes_eq)
qed

theorem default_roundtrip_witness:
  "reachable init_world \<and>
   (\<exists>w'. Register (Basic ''string'') init_world = Inr w' \<and> Knows (Basic ''string'') w' = Inr True \<and>
         Resolve (Basic ''string'') w' = Inr (Hydrate (Basic ''string'')))"
proof -
  from default_roundtrip [OF reachable_by.init, of "Basic ''string''"] reachable_by.init show ?thesis by simp
qed

text \<open>
  C4. The abstract contract for whole programs: in every state reached by a program
  that registers only non-interface types, resolution through any non-nil registry
  pointer behaves as the abstract \<open>spec_resolve\<close> on that registry's catalog.
\<close>

theorem concrete_programs_meet_contract:
  assumes "reachable_by concrete_call w" and "r \<noteq> Nil"
  shows "map_sum abs_resolve_error id (ResolveFromWithKey t r k w) = spec_resolve (abs_catalog w r) k t"
  using assms(2) reachable_concrete_catalog [OF assms(1)] by (rule resolve_refines_core)

theorem concrete_programs_meet_contract_witness:
  "\<exists>w'. exec_call (CallRegister (Basic ''int'')) init_world = Inr (RUnit, w') \<and>
     reachable_by concrete_call w' \<and>
     map_sum abs_resolve_error id (ResolveFromWithKey (Basic ''int'') (Addr 0) ''int'' w') =
       spec_resolve (abs_catalog w' (Addr 0)) ''int'' (Basic ''int'')"
proof -
  obtain w' where reg: "exec_call (CallRegister (Basic ''int'')) init_world = Inr (RUnit, w')"
    by (simp add: register_shapes_eq RegisterIntoWithKey_def registry_simps)
  have c: "concrete_call (CallRegister (Basic ''int''))" by (simp add: concrete_call_def)
  have r: "reachable_by concrete_call w'" by (rule reachable_by.step [where P = concrete_call, OF reachable_by.init c reg])
  have n: "Addr 0 \<noteq> Nil" by simp
  from reg r concrete_programs_meet_contract [OF r n] show ?thesis by blast
qed

text \<open>
  C20. The test suite passes after any client code: from every state that a sequence of
  API calls can reach, \<open>TestHydration\<close> runs all 64 subtests to completion, each with
  a true check and a resolution that does not panic.
\<close>

theorem TestHydration_after_any_client:
  assumes "reachable w"
  shows "TestHydration w = map (\<lambda>i. (i, Completed True True)) [0..63]"
  using run_cases_live [OF reachable_default_live [OF assms]] by (simp add: TestHydration_def)

theorem TestHydration_after_any_client_witness:
  "\<exists>w'. exec_call (CallRegisterWithKey (Basic ''int'') ''hydration.dummyType'') init_world = Inr (RUnit, w') \<and>
     reachable w' \<and> TestHydration w' = map (\<lambda>i. (i, Completed True True)) [0..63]"
proof -
  obtain w' where e: "exec_call (CallRegisterWithKey (Basic ''int'') ''hydration.dummyType'') init_world = Inr (RUnit, w')"
    by (simp add: register_shapes_eq RegisterIntoWithKey_def registry_simps)
  have r: "reachable w'" by (rule reachable_by.step [where P = "\<lambda>c. True", OF reachable_by.init _ e]) simp
  from e r TestHydration_after_any_client [OF r] show ?thesis by blast
qed

text \<open>
  C23. The package has no way to forget a registration: once a registry knows a key in a
  reachable state, it knows it after any client program that returns, whatever that
  program registers or allocates.
\<close>

theorem knows_stable:
  assumes "reachable w" and "run_calls cs w = Inr (rs, w')" and "KnowsTypeKeyIn p k w = Inr True"
  shows "KnowsTypeKeyIn p k w' = Inr True"
proof -
  from assms(3) have p: "p \<noteq> Nil" and e: "entries w p k \<noteq> None"
    by (auto simp: KnowsTypeKeyIn_entries split: if_splits)
  have "entries w' p k =
          (case last_write (DefaultRegistry w) cs p k of None \<Rightarrow> entries w p k | Some t \<Rightarrow> Some (Hydrator t))"
    by (rule run_calls_last_write_core [OF reachable_by_wf [OF assms(1)] assms(2)])
  with e have "entries w' p k \<noteq> None" by (simp split: option.splits)
  with p show ?thesis by (simp add: KnowsTypeKeyIn_entries)
qed

theorem knows_stable_witness:
  "\<exists>w1 w2. exec_call (CallRegisterWithKey (Basic ''int'') ''k'') init_world = Inr (RUnit, w1) \<and> reachable w1 \<and>
     KnowsTypeKeyIn (Addr 0) ''k'' w1 = Inr True \<and>
     run_calls [CallRegisterWithKey (Basic ''string'') ''j'', CallNewRegistry] w1 = Inr ([RUnit, RPtr (Addr 1)], w2) \<and>
     KnowsTypeKeyIn (Addr 0) ''k'' w2 = Inr True"
proof -
  obtain w1 where e: "exec_call (CallRegisterWithKey (Basic ''int'') ''k'') init_world = Inr (RUnit, w1)"
    by (simp add: register_shapes_eq RegisterIntoWithKey_def registry_simps)
  have r: "reachable w1" by (rule reachable_by.step [where P = "\<lambda>c. True", OF reachable_by.init _ e]) simp
  have reg: "RegisterIntoWithKey (Basic ''int'') (Addr 0) ''k'' init_world = Inr w1"
    using e by (simp add: register_shapes_eq registry_simps)
  have en: "entries w1 (Addr 0) ''k'' = Some (Hydrator (Basic ''int''))"
    using RegisterIntoWithKey_entries [OF reg, of "Addr 0"] by simp
  then have k: "KnowsTypeKeyIn (Addr 0) ''k'' w1 = Inr True" by (simp add: KnowsTypeKeyIn_entries)
  have n1: "next_addr w1 = 1" using exec_call_next_addr [OF e] by (simp add: registry_simps)
  obtain w' where r2: "RegisterIntoWithKey (Basic ''string'') (DefaultRegistry w1) ''j'' w1 = Inr w'"
    using RegisterIntoWithKey_live_ok [OF reachable_default_live [OF r]] by blast
  have "next_addr w' = 1" using RegisterIntoWithKey_fields(1) [OF r2] n1 by simp
  then obtain w2 where c: "run_calls [CallRegisterWithKey (Basic ''string'') ''j'', CallNewRegistry] w1 =
                             Inr ([RUnit, RPtr (Addr 1)], w2)"
    using r2 by (simp add: mutation_def register_shapes_eq NewRegistry_def)
  from knows_stable [OF r c k] e r k c show ?thesis by blast
qed

end
